theory Spec2Isabelle
  imports Main "HOL-Library.AList" "HOL-Library.Code_Target_Nat"
begin

section \<open>Python strings as sequences of Unicode code points\<close>

text \<open>
  A Python \<^verbatim>\<open>str\<close> is a sequence of Unicode code points, and the extractor's
  tests (\<^verbatim>\<open>in\<close>, \<^verbatim>\<open>find\<close>, \<^verbatim>\<open>len\<close>, the range test
  against U+4E00 and U+9FFF) all work on code points. A string is therefore a list of
  naturals; the Chinese labels of the catalog are written as hexadecimal code points,
  ASCII text through \<open>asc\<close>.
\<close>

type_synonym ustring = "nat list"

definition asc :: "string \<Rightarrow> ustring" where
  "asc s = map of_char s"

text \<open>
  \<^verbatim>\<open>str.isspace\<close>, which decides what \<^verbatim>\<open>str.strip()\<close> removes and what
  the regular expression \<^verbatim>\<open>\s\<close> matches (CPython 3.11, Unicode 14.0).
\<close>

definition isspace_cp :: "nat \<Rightarrow> bool" where
  "isspace_cp c \<longleftrightarrow>
     (0x9 \<le> c \<and> c \<le> 0xD) \<or> (0x1C \<le> c \<and> c \<le> 0x20) \<or> c = 0x85 \<or> c = 0xA0 \<or>
     c = 0x1680 \<or> (0x2000 \<le> c \<and> c \<le> 0x200A) \<or> c = 0x2028 \<or> c = 0x2029 \<or>
     c = 0x202F \<or> c = 0x205F \<or> c = 0x3000"

text \<open>
  The code points of general category Lu, Ll, Lt, Lm or Lo, as inclusive ranges: the
  characters for which \<^verbatim>\<open>str.isalpha\<close> holds (CPython 3.11, Unicode 14.0).
\<close>

definition alpha_ranges :: "(nat \<times> nat) list" where
  "alpha_ranges = [
   (0x41, 0x5A), (0x61, 0x7A), (0xAA, 0xAA), (0xB5, 0xB5), (0xBA, 0xBA),
   (0xC0, 0xD6), (0xD8, 0xF6), (0xF8, 0x2C1), (0x2C6, 0x2D1), (0x2E0, 0x2E4),
   (0x2EC, 0x2EC), (0x2EE, 0x2EE), (0x370, 0x374), (0x376, 0x377), (0x37A, 0x37D),
   (0x37F, 0x37F), (0x386, 0x386), (0x388, 0x38A), (0x38C, 0x38C), (0x38E, 0x3A1),
   (0x3A3, 0x3F5), (0x3F7, 0x481), (0x48A, 0x52F), (0x531, 0x556), (0x559, 0x559),
   (0x560, 0x588), (0x5D0, 0x5EA), (0x5EF, 0x5F2), (0x620, 0x64A), (0x66E, 0x66F),
   (0x671, 0x6D3), (0x6D5, 0x6D5), (0x6E5, 0x6E6), (0x6EE, 0x6EF), (0x6FA, 0x6FC),
   (0x6FF, 0x6FF), (0x710, 0x710), (0x712, 0x72F), (0x74D, 0x7A5), (0x7B1, 0x7B1),
   (0x7CA, 0x7EA), (0x7F4, 0x7F5), (0x7FA, 0x7FA), (0x800, 0x815), (0x81A, 0x81A),
   (0x824, 0x824), (0x828, 0x828), (0x840, 0x858), (0x860, 0x86A), (0x870, 0x887),
   (0x889, 0x88E), (0x8A0, 0x8C9), (0x904, 0x939), (0x93D, 0x93D), (0x950, 0x950),
   (0x958, 0x961), (0x971, 0x980), (0x985, 0x98C), (0x98F, 0x990), (0x993, 0x9A8),
   (0x9AA, 0x9B0), (0x9B2, 0x9B2), (0x9B6, 0x9B9), (0x9BD, 0x9BD), (0x9CE, 0x9CE),
   (0x9DC, 0x9DD), (0x9DF, 0x9E1), (0x9F0, 0x9F1), (0x9FC, 0x9FC), (0xA05, 0xA0A),
   (0xA0F, 0xA10), (0xA13, 0xA28), (0xA2A, 0xA30), (0xA32, 0xA33), (0xA35, 0xA36),
   (0xA38, 0xA39), (0xA59, 0xA5C), (0xA5E, 0xA5E), (0xA72, 0xA74), (0xA85, 0xA8D),
   (0xA8F, 0xA91), (0xA93, 0xAA8), (0xAAA, 0xAB0), (0xAB2, 0xAB3), (0xAB5, 0xAB9),
   (0xABD, 0xABD), (0xAD0, 0xAD0), (0xAE0, 0xAE1), (0xAF9, 0xAF9), (0xB05, 0xB0C),
   (0xB0F, 0xB10), (0xB13, 0xB28), (0xB2A, 0xB30), (0xB32, 0xB33), (0xB35, 0xB39),
   (0xB3D, 0xB3D), (0xB5C, 0xB5D), (0xB5F, 0xB61), (0xB71, 0xB71), (0xB83, 0xB83),
   (0xB85, 0xB8A), (0xB8E, 0xB90), (0xB92, 0xB95), (0xB99, 0xB9A), (0xB9C, 0xB9C),
   (0xB9E, 0xB9F), (0xBA3, 0xBA4), (0xBA8, 0xBAA), (0xBAE, 0xBB9), (0xBD0, 0xBD0),
   (0xC05, 0xC0C), (0xC0E, 0xC10), (0xC12, 0xC28), (0xC2A, 0xC39), (0xC3D, 0xC3D),
   (0xC58, 0xC5A), (0xC5D, 0xC5D), (0xC60, 0xC61), (0xC80, 0xC80), (0xC85, 0xC8C),
   (0xC8E, 0xC90), (0xC92, 0xCA8), (0xCAA, 0xCB3), (0xCB5, 0xCB9), (0xCBD, 0xCBD),
   (0xCDD, 0xCDE), (0xCE0, 0xCE1), (0xCF1, 0xCF2), (0xD04, 0xD0C), (0xD0E, 0xD10),
   (0xD12, 0xD3A), (0xD3D, 0xD3D), (0xD4E, 0xD4E), (0xD54, 0xD56), (0xD5F, 0xD61),
   (0xD7A, 0xD7F), (0xD85, 0xD96), (0xD9A, 0xDB1), (0xDB3, 0xDBB), (0xDBD, 0xDBD),
   (0xDC0, 0xDC6), (0xE01, 0xE30), (0xE32, 0xE33), (0xE40, 0xE46), (0xE81, 0xE82),
   (0xE84, 0xE84), (0xE86, 0xE8A), (0xE8C, 0xEA3), (0xEA5, 0xEA5), (0xEA7, 0xEB0),
   (0xEB2, 0xEB3), (0xEBD, 0xEBD), (0xEC0, 0xEC4), (0xEC6, 0xEC6), (0xEDC, 0xEDF),
   (0xF00, 0xF00), (0xF40, 0xF47), (0xF49, 0xF6C), (0xF88, 0xF8C), (0x1000, 0x102A),
   (0x103F, 0x103F), (0x1050, 0x1055), (0x105A, 0x105D), (0x1061, 0x1061), (0x1065, 0x1066),
   (0x106E, 0x1070), (0x1075, 0x1081), (0x108E, 0x108E), (0x10A0, 0x10C5), (0x10C7, 0x10C7),
   (0x10CD, 0x10CD), (0x10D0, 0x10FA), (0x10FC, 0x1248), (0x124A, 0x124D), (0x1250, 0x1256),
   (0x1258, 0x1258), (0x125A, 0x125D), (0x1260, 0x1288), (0x128A, 0x128D), (0x1290, 0x12B0),
   (0x12B2, 0x12B5), (0x12B8, 0x12BE), (0x12C0, 0x12C0), (0x12C2, 0x12C5), (0x12C8, 0x12D6),
   (0x12D8, 0x1310), (0x1312, 0x1315), (0x1318, 0x135A), (0x1380, 0x138F), (0x13A0, 0x13F5),
   (0x13F8, 0x13FD), (0x1401, 0x166C), (0x166F, 0x167F), (0x1681, 0x169A), (0x16A0, 0x16EA),
   (0x16F1, 0x16F8), (0x1700, 0x1711), (0x171F, 0x1731), (0x1740, 0x1751), (0x1760, 0x176C),
   (0x176E, 0x1770), (0x1780, 0x17B3), (0x17D7, 0x17D7), (0x17DC, 0x17DC), (0x1820, 0x1878),
   (0x1880, 0x1884), (0x1887, 0x18A8), (0x18AA, 0x18AA), (0x18B0, 0x18F5), (0x1900, 0x191E),
   (0x1950, 0x196D), (0x1970, 0x1974), (0x1980, 0x19AB), (0x19B0, 0x19C9), (0x1A00, 0x1A16),
   (0x1A20, 0x1A54), (0x1AA7, 0x1AA7), (0x1B05, 0x1B33), (0x1B45, 0x1B4C), (0x1B83, 0x1BA0),
   (0x1BAE, 0x1BAF), (0x1BBA, 0x1BE5), (0x1C00, 0x1C23), (0x1C4D, 0x1C4F), (0x1C5A, 0x1C7D),
   (0x1C80, 0x1C88), (0x1C90, 0x1CBA), (0x1CBD, 0x1CBF), (0x1CE9, 0x1CEC), (0x1CEE, 0x1CF3),
   (0x1CF5, 0x1CF6), (0x1CFA, 0x1CFA), (0x1D00, 0x1DBF), (0x1E00, 0x1F15), (0x1F18, 0x1F1D),
   (0x1F20, 0x1F45), (0x1F48, 0x1F4D), (0x1F50, 0x1F57), (0x1F59, 0x1F59), (0x1F5B, 0x1F5B),
   (0x1F5D, 0x1F5D), (0x1F5F, 0x1F7D), (0x1F80, 0x1FB4), (0x1FB6, 0x1FBC), (0x1FBE, 0x1FBE),
   (0x1FC2, 0x1FC4), (0x1FC6, 0x1FCC), (0x1FD0, 0x1FD3), (0x1FD6, 0x1FDB), (0x1FE0, 0x1FEC),
   (0x1FF2, 0x1FF4), (0x1FF6, 0x1FFC), (0x2071, 0x2071), (0x207F, 0x207F), (0x2090, 0x209C),
   (0x2102, 0x2102), (0x2107, 0x2107), (0x210A, 0x2113), (0x2115, 0x2115), (0x2119, 0x211D),
   (0x2124, 0x2124), (0x2126, 0x2126), (0x2128, 0x2128), (0x212A, 0x212D), (0x212F, 0x2139),
   (0x213C, 0x213F), (0x2145, 0x2149), (0x214E, 0x214E), (0x2183, 0x2184), (0x2C00, 0x2CE4),
   (0x2CEB, 0x2CEE), (0x2CF2, 0x2CF3), (0x2D00, 0x2D25), (0x2D27, 0x2D27), (0x2D2D, 0x2D2D),
   (0x2D30, 0x2D67), (0x2D6F, 0x2D6F), (0x2D80, 0x2D96), (0x2DA0, 0x2DA6), (0x2DA8, 0x2DAE),
   (0x2DB0, 0x2DB6), (0x2DB8, 0x2DBE), (0x2DC0, 0x2DC6), (0x2DC8, 0x2DCE), (0x2DD0, 0x2DD6),
   (0x2DD8, 0x2DDE), (0x2E2F, 0x2E2F), (0x3005, 0x3006), (0x3031, 0x3035), (0x303B, 0x303C),
   (0x3041, 0x3096), (0x309D, 0x309F), (0x30A1, 0x30FA), (0x30FC, 0x30FF), (0x3105, 0x312F),
   (0x3131, 0x318E), (0x31A0, 0x31BF), (0x31F0, 0x31FF), (0x3400, 0x4DBF), (0x4E00, 0xA48C),
   (0xA4D0, 0xA4FD), (0xA500, 0xA60C), (0xA610, 0xA61F), (0xA62A, 0xA62B), (0xA640, 0xA66E),
   (0xA67F, 0xA69D), (0xA6A0, 0xA6E5), (0xA717, 0xA71F), (0xA722, 0xA788), (0xA78B, 0xA7CA),
   (0xA7D0, 0xA7D1), (0xA7D3, 0xA7D3), (0xA7D5, 0xA7D9), (0xA7F2, 0xA801), (0xA803, 0xA805),
   (0xA807, 0xA80A), (0xA80C, 0xA822), (0xA840, 0xA873), (0xA882, 0xA8B3), (0xA8F2, 0xA8F7),
   (0xA8FB, 0xA8FB), (0xA8FD, 0xA8FE), (0xA90A, 0xA925), (0xA930, 0xA946), (0xA960, 0xA97C),
   (0xA984, 0xA9B2), (0xA9CF, 0xA9CF), (0xA9E0, 0xA9E4), (0xA9E6, 0xA9EF), (0xA9FA, 0xA9FE),
   (0xAA00, 0xAA28), (0xAA40, 0xAA42), (0xAA44, 0xAA4B), (0xAA60, 0xAA76), (0xAA7A, 0xAA7A),
   (0xAA7E, 0xAAAF), (0xAAB1, 0xAAB1), (0xAAB5, 0xAAB6), (0xAAB9, 0xAABD), (0xAAC0, 0xAAC0),
   (0xAAC2, 0xAAC2), (0xAADB, 0xAADD), (0xAAE0, 0xAAEA), (0xAAF2, 0xAAF4), (0xAB01, 0xAB06),
   (0xAB09, 0xAB0E), (0xAB11, 0xAB16), (0xAB20, 0xAB26), (0xAB28, 0xAB2E), (0xAB30, 0xAB5A),
   (0xAB5C, 0xAB69), (0xAB70, 0xABE2), (0xAC00, 0xD7A3), (0xD7B0, 0xD7C6), (0xD7CB, 0xD7FB),
   (0xF900, 0xFA6D), (0xFA70, 0xFAD9), (0xFB00, 0xFB06), (0xFB13, 0xFB17), (0xFB1D, 0xFB1D),
   (0xFB1F, 0xFB28), (0xFB2A, 0xFB36), (0xFB38, 0xFB3C), (0xFB3E, 0xFB3E), (0xFB40, 0xFB41),
   (0xFB43, 0xFB44), (0xFB46, 0xFBB1), (0xFBD3, 0xFD3D), (0xFD50, 0xFD8F), (0xFD92, 0xFDC7),
   (0xFDF0, 0xFDFB), (0xFE70, 0xFE74), (0xFE76, 0xFEFC), (0xFF21, 0xFF3A), (0xFF41, 0xFF5A),
   (0xFF66, 0xFFBE), (0xFFC2, 0xFFC7), (0xFFCA, 0xFFCF), (0xFFD2, 0xFFD7), (0xFFDA, 0xFFDC),
   (0x10000, 0x1000B), (0x1000D, 0x10026), (0x10028, 0x1003A), (0x1003C, 0x1003D), (0x1003F, 0x1004D),
   (0x10050, 0x1005D), (0x10080, 0x100FA), (0x10280, 0x1029C), (0x102A0, 0x102D0), (0x10300, 0x1031F),
   (0x1032D, 0x10340), (0x10342, 0x10349), (0x10350, 0x10375), (0x10380, 0x1039D), (0x103A0, 0x103C3),
   (0x103C8, 0x103CF), (0x10400, 0x1049D), (0x104B0, 0x104D3), (0x104D8, 0x104FB), (0x10500, 0x10527),
   (0x10530, 0x10563), (0x10570, 0x1057A), (0x1057C, 0x1058A), (0x1058C, 0x10592), (0x10594, 0x10595),
   (0x10597, 0x105A1), (0x105A3, 0x105B1), (0x105B3, 0x105B9), (0x105BB, 0x105BC), (0x10600, 0x10736),
   (0x10740, 0x10755), (0x10760, 0x10767), (0x10780, 0x10785), (0x10787, 0x107B0), (0x107B2, 0x107BA),
   (0x10800, 0x10805), (0x10808, 0x10808), (0x1080A, 0x10835), (0x10837, 0x10838), (0x1083C, 0x1083C),
   (0x1083F, 0x10855), (0x10860, 0x10876), (0x10880, 0x1089E), (0x108E0, 0x108F2), (0x108F4, 0x108F5),
   (0x10900, 0x10915), (0x10920, 0x10939), (0x10980, 0x109B7), (0x109BE, 0x109BF), (0x10A00, 0x10A00),
   (0x10A10, 0x10A13), (0x10A15, 0x10A17), (0x10A19, 0x10A35), (0x10A60, 0x10A7C), (0x10A80, 0x10A9C),
   (0x10AC0, 0x10AC7), (0x10AC9, 0x10AE4), (0x10B00, 0x10B35), (0x10B40, 0x10B55), (0x10B60, 0x10B72),
   (0x10B80, 0x10B91), (0x10C00, 0x10C48), (0x10C80, 0x10CB2), (0x10CC0, 0x10CF2), (0x10D00, 0x10D23),
   (0x10E80, 0x10EA9), (0x10EB0, 0x10EB1), (0x10F00, 0x10F1C), (0x10F27, 0x10F27), (0x10F30, 0x10F45),
   (0x10F70, 0x10F81), (0x10FB0, 0x10FC4), (0x10FE0, 0x10FF6), (0x11003, 0x11037), (0x11071, 0x11072),
   (0x11075, 0x11075), (0x11083, 0x110AF), (0x110D0, 0x110E8), (0x11103, 0x11126), (0x11144, 0x11144),
   (0x11147, 0x11147), (0x11150, 0x11172), (0x11176, 0x11176), (0x11183, 0x111B2), (0x111C1, 0x111C4),
   (0x111DA, 0x111DA), (0x111DC, 0x111DC), (0x11200, 0x11211), (0x11213, 0x1122B), (0x11280, 0x11286),
   (0x11288, 0x11288), (0x1128A, 0x1128D), (0x1128F, 0x1129D), (0x1129F, 0x112A8), (0x112B0, 0x112DE),
   (0x11305, 0x1130C), (0x1130F, 0x11310), (0x11313, 0x11328), (0x1132A, 0x11330), (0x11332, 0x11333),
   (0x11335, 0x11339), (0x1133D, 0x1133D), (0x11350, 0x11350), (0x1135D, 0x11361), (0x11400, 0x11434),
   (0x11447, 0x1144A), (0x1145F, 0x11461), (0x11480, 0x114AF), (0x114C4, 0x114C5), (0x114C7, 0x114C7),
   (0x11580, 0x115AE), (0x115D8, 0x115DB), (0x11600, 0x1162F), (0x11644, 0x11644), (0x11680, 0x116AA),
   (0x116B8, 0x116B8), (0x11700, 0x1171A), (0x11740, 0x11746), (0x11800, 0x1182B), (0x118A0, 0x118DF),
   (0x118FF, 0x11906), (0x11909, 0x11909), (0x1190C, 0x11913), (0x11915, 0x11916), (0x11918, 0x1192F),
   (0x1193F, 0x1193F), (0x11941, 0x11941), (0x119A0, 0x119A7), (0x119AA, 0x119D0), (0x119E1, 0x119E1),
   (0x119E3, 0x119E3), (0x11A00, 0x11A00), (0x11A0B, 0x11A32), (0x11A3A, 0x11A3A), (0x11A50, 0x11A50),
   (0x11A5C, 0x11A89), (0x11A9D, 0x11A9D), (0x11AB0, 0x11AF8), (0x11C00, 0x11C08), (0x11C0A, 0x11C2E),
   (0x11C40, 0x11C40), (0x11C72, 0x11C8F), (0x11D00, 0x11D06), (0x11D08, 0x11D09), (0x11D0B, 0x11D30),
   (0x11D46, 0x11D46), (0x11D60, 0x11D65), (0x11D67, 0x11D68), (0x11D6A, 0x11D89), (0x11D98, 0x11D98),
   (0x11EE0, 0x11EF2), (0x11FB0, 0x11FB0), (0x12000, 0x12399), (0x12480, 0x12543), (0x12F90, 0x12FF0),
   (0x13000, 0x1342E), (0x14400, 0x14646), (0x16800, 0x16A38), (0x16A40, 0x16A5E), (0x16A70, 0x16ABE),
   (0x16AD0, 0x16AED), (0x16B00, 0x16B2F), (0x16B40, 0x16B43), (0x16B63, 0x16B77), (0x16B7D, 0x16B8F),
   (0x16E40, 0x16E7F), (0x16F00, 0x16F4A), (0x16F50, 0x16F50), (0x16F93, 0x16F9F), (0x16FE0, 0x16FE1),
   (0x16FE3, 0x16FE3), (0x17000, 0x187F7), (0x18800, 0x18CD5), (0x18D00, 0x18D08), (0x1AFF0, 0x1AFF3),
   (0x1AFF5, 0x1AFFB), (0x1AFFD, 0x1AFFE), (0x1B000, 0x1B122), (0x1B150, 0x1B152), (0x1B164, 0x1B167),
   (0x1B170, 0x1B2FB), (0x1BC00, 0x1BC6A), (0x1BC70, 0x1BC7C), (0x1BC80, 0x1BC88), (0x1BC90, 0x1BC99),
   (0x1D400, 0x1D454), (0x1D456, 0x1D49C), (0x1D49E, 0x1D49F), (0x1D4A2, 0x1D4A2), (0x1D4A5, 0x1D4A6),
   (0x1D4A9, 0x1D4AC), (0x1D4AE, 0x1D4B9), (0x1D4BB, 0x1D4BB), (0x1D4BD, 0x1D4C3), (0x1D4C5, 0x1D505),
   (0x1D507, 0x1D50A), (0x1D50D, 0x1D514), (0x1D516, 0x1D51C), (0x1D51E, 0x1D539), (0x1D53B, 0x1D53E),
   (0x1D540, 0x1D544), (0x1D546, 0x1D546), (0x1D54A, 0x1D550), (0x1D552, 0x1D6A5), (0x1D6A8, 0x1D6C0),
   (0x1D6C2, 0x1D6DA), (0x1D6DC, 0x1D6FA), (0x1D6FC, 0x1D714), (0x1D716, 0x1D734), (0x1D736, 0x1D74E),
   (0x1D750, 0x1D76E), (0x1D770, 0x1D788), (0x1D78A, 0x1D7A8), (0x1D7AA, 0x1D7C2), (0x1D7C4, 0x1D7CB),
   (0x1DF00, 0x1DF1E), (0x1E100, 0x1E12C), (0x1E137, 0x1E13D), (0x1E14E, 0x1E14E), (0x1E290, 0x1E2AD),
   (0x1E2C0, 0x1E2EB), (0x1E7E0, 0x1E7E6), (0x1E7E8, 0x1E7EB), (0x1E7ED, 0x1E7EE), (0x1E7F0, 0x1E7FE),
   (0x1E800, 0x1E8C4), (0x1E900, 0x1E943), (0x1E94B, 0x1E94B), (0x1EE00, 0x1EE03), (0x1EE05, 0x1EE1F),
   (0x1EE21, 0x1EE22), (0x1EE24, 0x1EE24), (0x1EE27, 0x1EE27), (0x1EE29, 0x1EE32), (0x1EE34, 0x1EE37),
   (0x1EE39, 0x1EE39), (0x1EE3B, 0x1EE3B), (0x1EE42, 0x1EE42), (0x1EE47, 0x1EE47), (0x1EE49, 0x1EE49),
   (0x1EE4B, 0x1EE4B), (0x1EE4D, 0x1EE4F), (0x1EE51, 0x1EE52), (0x1EE54, 0x1EE54), (0x1EE57, 0x1EE57),
   (0x1EE59, 0x1EE59), (0x1EE5B, 0x1EE5B), (0x1EE5D, 0x1EE5D), (0x1EE5F, 0x1EE5F), (0x1EE61, 0x1EE62),
   (0x1EE64, 0x1EE64), (0x1EE67, 0x1EE6A), (0x1EE6C, 0x1EE72), (0x1EE74, 0x1EE77), (0x1EE79, 0x1EE7C),
   (0x1EE7E, 0x1EE7E), (0x1EE80, 0x1EE89), (0x1EE8B, 0x1EE9B), (0x1EEA1, 0x1EEA3), (0x1EEA5, 0x1EEA9),
   (0x1EEAB, 0x1EEBB), (0x20000, 0x2A6DF), (0x2A700, 0x2B738), (0x2B740, 0x2B81D), (0x2B820, 0x2CEA1),
   (0x2CEB0, 0x2EBE0), (0x2F800, 0x2FA1D), (0x30000, 0x3134A)]"

definition isalpha_cp :: "nat \<Rightarrow> bool" where
  "isalpha_cp c = list_ex (\<lambda>(lo, hi). lo \<le> c \<and> c \<le> hi) alpha_ranges"

text \<open>\<^verbatim>\<open>s.isalpha()\<close>: every character is a letter and there is at least one.\<close>

definition isalpha :: "ustring \<Rightarrow> bool" where
  "isalpha s \<longleftrightarrow> s \<noteq> [] \<and> list_all isalpha_cp s"

text \<open>
  The decimal digits (category Nd) come in runs of ten consecutive code points with the
  values 0 to 9; \<open>digit_bases\<close> lists the code point of each run's zero.
\<close>

definition digit_bases :: "nat list" where
  "digit_bases = [
   0x30, 0x660, 0x6F0, 0x7C0, 0x966, 0x9E6, 0xA66, 0xAE6, 0xB66, 0xBE6,
   0xC66, 0xCE6, 0xD66, 0xDE6, 0xE50, 0xED0, 0xF20, 0x1040, 0x1090, 0x17E0,
   0x1810, 0x1946, 0x19D0, 0x1A80, 0x1A90, 0x1B50, 0x1BB0, 0x1C40, 0x1C50, 0xA620,
   0xA8D0, 0xA900, 0xA9D0, 0xA9F0, 0xAA50, 0xABF0, 0xFF10, 0x104A0, 0x10D30, 0x11066,
   0x110F0, 0x11136, 0x111D0, 0x112F0, 0x11450, 0x114D0, 0x11650, 0x116C0, 0x11730, 0x118E0,
   0x11950, 0x11C50, 0x11D50, 0x11DA0, 0x16A60, 0x16AC0, 0x16B50, 0x1D7CE, 0x1D7D8, 0x1D7E2,
   0x1D7EC, 0x1D7F6, 0x1E140, 0x1E2F0, 0x1E950, 0x1FBF0]"

definition decimal_cp :: "nat \<Rightarrow> nat option" where
  "decimal_cp c = map_option (\<lambda>b. c - b) (find (\<lambda>b. b \<le> c \<and> c < b + 10) digit_bases)"

text \<open>Comparison of strings with \<^verbatim>\<open><=\<close>: lexicographic on code points.\<close>

fun str_le :: "ustring \<Rightarrow> ustring \<Rightarrow> bool" where
  "str_le [] t = True"
| "str_le (x # s) [] = False"
| "str_le (x # s) (y # t) = (x < y \<or> (x = y \<and> str_le s t))"

definition strip :: "ustring \<Rightarrow> ustring" where
  "strip s = rev (dropWhile isspace_cp (rev (dropWhile isspace_cp s)))"

text \<open>
  \<^verbatim>\<open>s.replace(old, new)\<close> for a one-character \<open>old\<close>, the only form the
  extractor uses.
\<close>

definition replace_cp :: "nat \<Rightarrow> ustring \<Rightarrow> ustring \<Rightarrow> ustring" where
  "replace_cp old new s = concat (map (\<lambda>c. if c = old then new else [c]) s)"

definition starts_with :: "ustring \<Rightarrow> ustring \<Rightarrow> bool" where
  "starts_with s p \<longleftrightarrow> take (length p) s = p"

text \<open>\<^verbatim>\<open>p in s\<close>.\<close>

fun contains :: "ustring \<Rightarrow> ustring \<Rightarrow> bool" where
  "contains [] p = (p = [])"
| "contains (c # s) p = (starts_with (c # s) p \<or> contains s p)"

text \<open>\<^verbatim>\<open>s.find(p)\<close>: the lowest index at which \<open>p\<close> occurs, or -1.\<close>

fun str_find :: "ustring \<Rightarrow> ustring \<Rightarrow> int" where
  "str_find [] p = (if p = [] then 0 else - 1)"
| "str_find (c # s) p =
     (if starts_with (c # s) p then 0
      else (let k = str_find s p in if k < 0 then - 1 else k + 1))"

text \<open>\<^verbatim>\<open>s.split(sep, 1)\<close> for a one-character separator.\<close>

definition split_once :: "nat \<Rightarrow> ustring \<Rightarrow> ustring list" where
  "split_once sep s =
     (if sep \<in> set s then [takeWhile (\<lambda>c. c \<noteq> sep) s, tl (dropWhile (\<lambda>c. c \<noteq> sep) s)]
      else [s])"

text \<open>\<^verbatim>\<open>s.split(sep)[0]\<close> for a one-character separator.\<close>

definition split_first :: "nat \<Rightarrow> ustring \<Rightarrow> ustring" where
  "split_first sep s = takeWhile (\<lambda>c. c \<noteq> sep) s"

section \<open>The value normalizer\<close>

subsection \<open>\<^verbatim>\<open>clean_value\<close>\<close>

definition clean_value :: "ustring \<Rightarrow> ustring" where
  "clean_value value0 =
     (let v = strip value0
      in if 0x5F \<in> set v then split_first 0x5F v else v)"

subsection \<open>\<^verbatim>\<open>float(s)\<close> on a string\<close>

text \<open>
  What \<^verbatim>\<open>float\<close> accepts is a matter of syntax, which is modelled in full;
  the number it returns is a binary64 value, which is not. A successful parse is
  represented by the decimal it denotes before rounding: \<open>Dec neg m e\<close> stands for
  \<open>(-1)^neg * m * 10^e\<close>.
\<close>

datatype pyfloat = Dec bool nat int | Inf bool | NaN_float

text \<open>
  CPython first maps the string to ASCII: characters below 127 stay, other white space
  becomes a blank, other decimal digits become ASCII digits, and at the first character
  that is none of these the result ends with a question mark.
\<close>

fun to_ascii :: "ustring \<Rightarrow> ustring" where
  "to_ascii [] = []"
| "to_ascii (c # cs) =
     (if c < 127 then c # to_ascii cs
      else if isspace_cp c then 0x20 # to_ascii cs
      else (case decimal_cp c of None \<Rightarrow> [0x3F] | Some d \<Rightarrow> (0x30 + d) # to_ascii cs))"

definition ascii_space :: "nat \<Rightarrow> bool" where
  "ascii_space c \<longleftrightarrow> (0x9 \<le> c \<and> c \<le> 0xD) \<or> c = 0x20"

definition ascii_digit :: "nat \<Rightarrow> bool" where
  "ascii_digit c \<longleftrightarrow> 0x30 \<le> c \<and> c \<le> 0x39"

text \<open>
  Underscores may only stand between two digits; they are removed before the number is
  read. \<open>prev\<close> is the character before the current one (NUL at the start).
\<close>

fun drop_underscores :: "nat \<Rightarrow> ustring \<Rightarrow> ustring option" where
  "drop_underscores prev [] = (if prev = 0x5F then None else Some [])"
| "drop_underscores prev (c # cs) =
     (if c = 0x5F then (if ascii_digit prev then drop_underscores c cs else None)
      else if prev = 0x5F \<and> \<not> ascii_digit c then None
      else map_option (Cons c) (drop_underscores c cs))"

definition digits_value :: "ustring \<Rightarrow> nat" where
  "digits_value ds = foldl (\<lambda>n c. 10 * n + (c - 0x30)) 0 ds"

definition ascii_lower :: "ustring \<Rightarrow> ustring" where
  "ascii_lower s = map (\<lambda>c. if 0x41 \<le> c \<and> c \<le> 0x5A then c + 0x20 else c) s"

text \<open>An optional sign; the flag says whether it was a minus.\<close>

definition take_sign :: "ustring \<Rightarrow> bool \<times> ustring" where
  "take_sign s =
     (case s of [] \<Rightarrow> (False, [])
      | c # r \<Rightarrow> if c = 0x2D then (True, r) else if c = 0x2B then (False, r) else (False, s))"

text \<open>
  The exponent part: absent, or \<^verbatim>\<open>e\<close>/\<^verbatim>\<open>E\<close>, an optional sign and at least
  one digit, up to the end of the string. \<open>None\<close> when characters are left over.
\<close>

definition parse_exponent :: "ustring \<Rightarrow> int option" where
  "parse_exponent s =
     (case s of [] \<Rightarrow> Some 0
      | c # r \<Rightarrow>
          if c = 0x65 \<or> c = 0x45 then
            (let (neg, ds) = take_sign r
             in if ds \<noteq> [] \<and> list_all ascii_digit ds
                then Some (if neg then - int (digits_value ds) else int (digits_value ds))
                else None)
          else None)"

definition parse_decimal :: "bool \<Rightarrow> ustring \<Rightarrow> pyfloat option" where
  "parse_decimal neg s =
     (let ip = takeWhile ascii_digit s;
          r1 = dropWhile ascii_digit s;
          fp = (case r1 of [] \<Rightarrow> [] | c # r \<Rightarrow> if c = 0x2E then takeWhile ascii_digit r else []);
          r2 = (case r1 of [] \<Rightarrow> [] | c # r \<Rightarrow> if c = 0x2E then dropWhile ascii_digit r else r1)
      in if ip = [] \<and> fp = [] then None
         else (case parse_exponent r2 of
                 None \<Rightarrow> None
               | Some e \<Rightarrow> Some (Dec neg (digits_value (ip @ fp)) (e - int (length fp)))))"

definition parse_float :: "ustring \<Rightarrow> pyfloat option" where
  "parse_float s0 =
     (let s = rev (dropWhile ascii_space (rev (dropWhile ascii_space (to_ascii s0))))
      in case drop_underscores 0 s of
           None \<Rightarrow> None
         | Some t \<Rightarrow>
             (let (neg, body) = take_sign t; low = ascii_lower body
              in if low = asc ''inf'' \<or> low = asc ''infinity'' then Some (Inf neg)
                 else if low = asc ''nan'' then Some NaN_float
                 else parse_decimal neg body))"

subsection \<open>\<^verbatim>\<open>convert_to_float\<close>\<close>

text \<open>
  The argument is what \<^verbatim>\<open>dict.get\<close> returned: a string or \<^verbatim>\<open>None\<close>.
  \<^verbatim>\<open>float(None)\<close> raises TypeError and \<^verbatim>\<open>float\<close> of a malformed string
  raises ValueError; the bare \<^verbatim>\<open>except\<close> catches both and the argument is returned.
\<close>

datatype pyval = PNone | PStr ustring | PFloat pyfloat

definition convert_to_float :: "ustring option \<Rightarrow> pyval" where
  "convert_to_float v =
     (case v of
        None \<Rightarrow> PNone
      | Some s \<Rightarrow> (case parse_float s of Some f \<Rightarrow> PFloat f | None \<Rightarrow> PStr s))"

subsection \<open>\<^verbatim>\<open>datetime.strptime\<close> and \<^verbatim>\<open>strftime\<close>\<close>

text \<open>
  \<^verbatim>\<open>strptime\<close> compiles the format to a regular expression and runs
  \<^verbatim>\<open>re.match\<close>, a backtracking matcher that returns the first match in the order
  of its alternatives; the text must then have been consumed entirely. The fragment of
  regular expressions that the directives need:
\<close>

datatype rx =
    Eps                \<comment> \<open>the empty expression\<close>
  | Chr nat            \<comment> \<open>a literal character\<close>
  | Rng nat nat        \<comment> \<open>a character class \<^verbatim>\<open>[a-b]\<close>\<close>
  | UDigit             \<comment> \<open>\<^verbatim>\<open>\d\<close>: any decimal digit\<close>
  | Spaces             \<comment> \<open>\<^verbatim>\<open>\s+\<close>, greedy\<close>
  | Seq rx rx
  | Alt rx rx
  | Grp nat rx         \<comment> \<open>a named group; the name is the directive's letter\<close>

type_synonym captures = "(nat \<times> ustring) list"

text \<open>All ways to match a prefix of the text, in the matcher's order of preference.\<close>

fun rx_match :: "rx \<Rightarrow> ustring \<Rightarrow> (captures \<times> ustring) list" where
  "rx_match Eps s = [([], s)]"
| "rx_match (Chr c) s = (case s of [] \<Rightarrow> [] | x # r \<Rightarrow> if x = c then [([], r)] else [])"
| "rx_match (Rng lo hi) s =
     (case s of [] \<Rightarrow> [] | x # r \<Rightarrow> if lo \<le> x \<and> x \<le> hi then [([], r)] else [])"
| "rx_match UDigit s =
     (case s of [] \<Rightarrow> [] | x # r \<Rightarrow> if decimal_cp x \<noteq> None then [([], r)] else [])"
| "rx_match Spaces s =
     map (\<lambda>k. ([], drop k s)) (rev [1 ..< Suc (length (takeWhile isspace_cp s))])"
| "rx_match (Seq a b) s =
     concat (map (\<lambda>(g1, r1). map (\<lambda>(g2, r2). (g1 @ g2, r2)) (rx_match b r1)) (rx_match a s))"
| "rx_match (Alt a b) s = rx_match a s @ rx_match b s"
| "rx_match (Grp k a) s =
     map (\<lambda>(g, r). ((k, take (length s - length r) s) # g, r)) (rx_match a s)"

fun alts :: "rx list \<Rightarrow> rx" where
  "alts [] = Rng 1 0"
| "alts [a] = a"
| "alts (a # as) = Alt a (alts as)"

fun seqs :: "rx list \<Rightarrow> rx" where
  "seqs [] = Eps"
| "seqs [a] = a"
| "seqs (a # as) = Seq a (seqs as)"

text \<open>
  The regular expressions of the directives, from CPython's \<^verbatim>\<open>_strptime.py\<close>:
  \<^verbatim>\<open>
  'd': (?P<d>3[0-1]|[1-2]\d|0[1-9]|[1-9]| [1-9])
  'm': (?P<m>1[0-2]|0[1-9]|[1-9])
  'Y': (?P<Y>\d\d\d\d)
  'H': (?P<H>2[0-3]|[0-1]\d|\d)
  'M': (?P<M>[0-5]\d|\d)
  'S': (?P<S>6[0-1]|[0-5]\d|\d)
  \<close>
  Any other character of the format matches itself, a blank matches \<^verbatim>\<open>\s+\<close>.
\<close>

definition directive_rx :: "nat \<Rightarrow> rx option" where
  "directive_rx d =
     (if d = 0x64 then
        Some (Grp d (alts [Seq (Chr 0x33) (Rng 0x30 0x31), Seq (Rng 0x31 0x32) UDigit,
                           Seq (Chr 0x30) (Rng 0x31 0x39), Rng 0x31 0x39,
                           Seq (Chr 0x20) (Rng 0x31 0x39)]))
      else if d = 0x6D then
        Some (Grp d (alts [Seq (Chr 0x31) (Rng 0x30 0x32), Seq (Chr 0x30) (Rng 0x31 0x39),
                           Rng 0x31 0x39]))
      else if d = 0x59 then
        Some (Grp d (seqs [UDigit, UDigit, UDigit, UDigit]))
      else if d = 0x48 then
        Some (Grp d (alts [Seq (Chr 0x32) (Rng 0x30 0x33), Seq (Rng 0x30 0x31) UDigit, UDigit]))
      else if d = 0x4D then
        Some (Grp d (alts [Seq (Rng 0x30 0x35) UDigit, UDigit]))
      else if d = 0x53 then
        Some (Grp d (alts [Seq (Chr 0x36) (Rng 0x30 0x31), Seq (Rng 0x30 0x35) UDigit, UDigit]))
      else None)"

text \<open>
  The expression of a whole format. \<open>None\<close> stands for a format with a directive
  outside the six above; the four formats of \<^verbatim>\<open>normalize_date\<close> have none.
\<close>

fun format_rx :: "ustring \<Rightarrow> rx list option" where
  "format_rx [] = Some []"
| "format_rx [c] = (if c = 0x25 then None else Some [if c = 0x20 then Spaces else Chr c])"
| "format_rx (c # d # cs) =
     (if c = 0x25 then
        (case directive_rx d of
           None \<Rightarrow> None
         | Some r \<Rightarrow> map_option (Cons r) (format_rx cs))
      else map_option (Cons (if c = 0x20 then Spaces else Chr c)) (format_rx (d # cs)))"

text \<open>\<^verbatim>\<open>int(s)\<close> on a captured group: digits, possibly after a blank.\<close>

definition py_int :: "ustring \<Rightarrow> nat" where
  "py_int s = foldl (\<lambda>n c. 10 * n + (case decimal_cp c of None \<Rightarrow> 0 | Some d \<Rightarrow> d)) 0 (strip s)"

record datetime =
  year :: nat
  month :: nat
  day :: nat
  hour :: nat
  minute :: nat
  second :: nat

definition is_leap :: "nat \<Rightarrow> bool" where
  "is_leap y \<longleftrightarrow> y mod 4 = 0 \<and> (y mod 100 \<noteq> 0 \<or> y mod 400 = 0)"

definition days_in_month :: "nat \<Rightarrow> nat \<Rightarrow> nat" where
  "days_in_month y m =
     (if m = 2 then (if is_leap y then 29 else 28)
      else if m = 4 \<or> m = 6 \<or> m = 9 \<or> m = 11 then 30 else 31)"

text \<open>The constructor \<^verbatim>\<open>datetime(...)\<close> raises ValueError outside these bounds.\<close>

definition valid_datetime :: "datetime \<Rightarrow> bool" where
  "valid_datetime dt \<longleftrightarrow>
     1 \<le> year dt \<and> year dt \<le> 9999 \<and> 1 \<le> month dt \<and> month dt \<le> 12 \<and>
     1 \<le> day dt \<and> day dt \<le> days_in_month (year dt) (month dt) \<and>
     hour dt \<le> 23 \<and> minute dt \<le> 59 \<and> second dt \<le> 59"

text \<open>A field that the format does not mention keeps its default.\<close>

definition group_or :: "captures \<Rightarrow> nat \<Rightarrow> nat \<Rightarrow> nat" where
  "group_or g k dflt = (case map_of g k of None \<Rightarrow> dflt | Some s \<Rightarrow> py_int s)"

text \<open>
  \<^verbatim>\<open>datetime.strptime(s, fmt)\<close>; \<open>None\<close> is the ValueError raised when the
  text does not match, when text is left over after the match, or when the fields are
  not a date and time.
\<close>

definition strptime :: "ustring \<Rightarrow> ustring \<Rightarrow> datetime option" where
  "strptime s fmt =
     (case format_rx fmt of
        None \<Rightarrow> None
      | Some rs \<Rightarrow>
          (case rx_match (seqs rs) s of
             [] \<Rightarrow> None
           | (g, rest) # _ \<Rightarrow>
               if rest \<noteq> [] then None
               else
                 (let dt = \<lparr> year = group_or g 0x59 1900, month = group_or g 0x6D 1,
                              day = group_or g 0x64 1, hour = group_or g 0x48 0,
                              minute = group_or g 0x4D 0, second = group_or g 0x53 0 \<rparr>
                  in if valid_datetime dt then Some dt else None)))"

text \<open>
  \<^verbatim>\<open>dt.strftime('%Y%m%d')\<close>. \<^verbatim>\<open>%m\<close> and \<^verbatim>\<open>%d\<close> are written with two
  digits, padded with a zero. \<^verbatim>\<open>%Y\<close> is handed to the C library, which (glibc,
  under CPython 3.11 on Linux) writes the year as a plain decimal number without padding:
  four digits from the year 1000 on, fewer below. The years of a \<^verbatim>\<open>datetime\<close> lie
  between 1 and 9999.
\<close>

fun digits_of :: "nat \<Rightarrow> nat \<Rightarrow> ustring" where
  "digits_of 0 n = []"
| "digits_of (Suc w) n = digits_of w (n div 10) @ [0x30 + n mod 10]"

definition year_digits :: "nat \<Rightarrow> ustring" where
  "year_digits y =
     (if y < 10 then digits_of 1 y
      else if y < 100 then digits_of 2 y
      else if y < 1000 then digits_of 3 y
      else digits_of 4 y)"

definition strftime_Ymd :: "datetime \<Rightarrow> ustring" where
  "strftime_Ymd dt = year_digits (year dt) @ digits_of 2 (month dt) @ digits_of 2 (day dt)"

subsection \<open>\<^verbatim>\<open>normalize_date\<close>\<close>

definition date_formats :: "ustring list" where
  "date_formats = [asc ''%Y%m%d'', asc ''%Y-%m-%d'', asc ''%Y/%m/%d'', asc ''%Y-%m-%d %H:%M:%S'']"

text \<open>The loop over the formats: the first that parses returns, a failure moves on.\<close>

fun try_formats :: "ustring \<Rightarrow> ustring list \<Rightarrow> ustring" where
  "try_formats date_str [] = date_str"
| "try_formats date_str (fmt # fmts) =
     (case strptime date_str fmt of
        Some dt \<Rightarrow> strftime_Ymd dt
      | None \<Rightarrow> try_formats date_str fmts)"

text \<open>
  The argument is a string or \<^verbatim>\<open>None\<close>; both \<^verbatim>\<open>None\<close> and the empty
  string are false for \<^verbatim>\<open>if not date_str\<close>.
\<close>

definition normalize_date :: "ustring option \<Rightarrow> ustring option" where
  "normalize_date date_str =
     (case date_str of
        None \<Rightarrow> None
      | Some s \<Rightarrow> if s = [] then None else Some (try_formats (strip s) date_formats))"

section \<open>The grid and the field catalog\<close>

text \<open>
  The extractor reads a cell only through \<^verbatim>\<open>str(v)\<close>, \<^verbatim>\<open>pd.isna(v)\<close>
  and \<^verbatim>\<open>pd.notna(v)\<close>. A cell is therefore either a missing value, for which
  \<^verbatim>\<open>pd.isna\<close> holds, or a present value, and in both cases it is given with the
  text \<^verbatim>\<open>str\<close> renders it as. The missing values are NaN, which a blank cell of a
  sheet read with \<^verbatim>\<open>header=None\<close> holds and which is rendered \<^verbatim>\<open>'nan'\<close>, and
  also \<^verbatim>\<open>None\<close>, \<^verbatim>\<open>NaT\<close> and \<^verbatim>\<open>pd.NA\<close>, rendered \<^verbatim>\<open>'None'\<close>,
  \<^verbatim>\<open>'NaT'\<close> and \<^verbatim>\<open>'<NA>'\<close>.
\<close>

datatype cell = Missing ustring | Val ustring

abbreviation NaN :: cell where
  "NaN \<equiv> Missing (asc ''nan'')"

definition py_str :: "cell \<Rightarrow> ustring" where
  "py_str v = (case v of Missing s \<Rightarrow> s | Val s \<Rightarrow> s)"

definition isna :: "cell \<Rightarrow> bool" where
  "isna v = (case v of Missing s \<Rightarrow> True | Val s \<Rightarrow> False)"

text \<open>
  A DataFrame is the list of its rows, which all have the same length.
  \<^verbatim>\<open>len(df)\<close> is the number of rows, \<^verbatim>\<open>len(df.columns)\<close> the length of
  the rows (it is only consulted inside a loop over the rows),
  \<^verbatim>\<open>df.iloc[i, j]\<close> the cell of row \<open>i\<close> and column \<open>j\<close>; the loops
  keep \<open>i\<close> and \<open>j\<close> in range.
\<close>

type_synonym dataframe = "cell list list"

definition ncols :: "dataframe \<Rightarrow> nat" where
  "ncols df = (case df of [] \<Rightarrow> 0 | row # _ \<Rightarrow> length row)"

definition iloc :: "dataframe \<Rightarrow> nat \<Rightarrow> nat \<Rightarrow> cell" where
  "iloc df i j = df ! i ! j"

text \<open>
  A Python \<^verbatim>\<open>dict\<close> with string keys and values, in insertion order:
  \<^verbatim>\<open>d[k] = v\<close> is \<^const>\<open>AList.update\<close>, \<^verbatim>\<open>d.get(k)\<close> is
  \<^const>\<open>map_of\<close>, \<^verbatim>\<open>len(d)\<close> is \<^const>\<open>length\<close>.
\<close>

type_synonym pydict = "(ustring \<times> ustring) list"

definition has_key :: "pydict \<Rightarrow> ustring \<Rightarrow> bool" where
  "has_key d k \<longleftrightarrow> map_of d k \<noteq> None"

text \<open>
  The keys of the five core fields: product name (chanpin mingcheng), product code
  (chanpin daima), unit net value (danwei jingzhi), accumulated unit net value (leiji
  danwei jingzhi) and net value date (jingzhi riqi).
\<close>

definition product_name :: ustring where
  "product_name = [0x4EA7, 0x54C1, 0x540D, 0x79F0]"

definition product_code :: ustring where
  "product_code = [0x4EA7, 0x54C1, 0x4EE3, 0x7801]"

definition unit_nav :: ustring where
  "unit_nav = [0x5355, 0x4F4D, 0x51C0, 0x503C]"

definition accumulated_nav :: ustring where
  "accumulated_nav = [0x7D2F, 0x8BA1, 0x5355, 0x4F4D, 0x51C0, 0x503C]"

definition nav_date :: ustring where
  "nav_date = [0x51C0, 0x503C, 0x65E5, 0x671F]"

text \<open>
  The keys of the ancillary fields of a normalized record: client name (kehu mingcheng),
  participating shares (canyu jiti fen'e), accrual frequency (jiti pinlv), virtual
  performance fee (xuni jiti yeji baochou jin'e), withdrawal net value (tiqu jingzhi) and
  virtual net value after accrual (jiti hou xuni jingzhi).
\<close>

definition client_name :: ustring where
  "client_name = [0x5BA2, 0x6237, 0x540D, 0x79F0]"

definition participating_shares :: ustring where
  "participating_shares = [0x53C2, 0x4E0E, 0x8BA1, 0x63D0, 0x4EFD, 0x989D]"

definition accrual_frequency :: ustring where
  "accrual_frequency = [0x8BA1, 0x63D0, 0x9891, 0x7387]"

definition virtual_fee :: ustring where
  "virtual_fee = [0x865A, 0x62DF, 0x8BA1, 0x63D0, 0x4E1A, 0x7EE9, 0x62A5, 0x916C, 0x91D1, 0x989D]"

definition withdrawal_nav :: ustring where
  "withdrawal_nav = [0x63D0, 0x53D6, 0x51C0, 0x503C]"

definition post_accrual_nav :: ustring where
  "post_accrual_nav = [0x8BA1, 0x63D0, 0x540E, 0x865A, 0x62DF, 0x51C0, 0x503C]"

text \<open>
  The catalog \<^verbatim>\<open>keywords\<close> of \<^verbatim>\<open>extract_fund_data_smart\<close>: the items of
  the dictionary in insertion order, each field with its aliases in list order.
\<close>

type_synonym catalog = "(ustring \<times> ustring list) list"

definition fund_keywords :: catalog where
  "fund_keywords = [
     (product_name,
       [[0x4EA7, 0x54C1, 0x540D, 0x79F0],
        [0x57FA, 0x91D1, 0x540D, 0x79F0],
        [0x8D44, 0x4EA7, 0x540D, 0x79F0],
        [0x540D, 0x79F0],
        asc ''FundName'']),
     (product_code,
       [[0x4EA7, 0x54C1, 0x4EE3, 0x7801],
        [0x57FA, 0x91D1, 0x4EE3, 0x7801],
        [0x8D44, 0x4EA7, 0x4EE3, 0x7801],
        [0x4EE3, 0x7801],
        [0x534F, 0x4F1A, 0x5907, 0x6848, 0x7F16, 0x7801],
        [0x534F, 0x4F1A, 0x5907, 0x6848, 0x4EE3, 0x7801],
        asc ''FundFillingCode'']),
     (unit_nav,
       [[0x5355, 0x4F4D, 0x51C0, 0x503C],
        [0x57FA, 0x91D1, 0x4EFD, 0x989D, 0x51C0, 0x503C],
        [0x4EA7, 0x54C1, 0x5355, 0x4F4D, 0x51C0, 0x503C],
        [0x5F53, 0x671F, 0x51C0, 0x503C],
        [0x8D44, 0x4EA7, 0x51C0, 0x503C],
        [0x51C0, 0x503C],
        [0x5B9E, 0x9645, 0x51C0, 0x503C],
        asc ''NAV/Share'',
        asc ''NAVShare'']),
     (accumulated_nav,
       [[0x7D2F, 0x8BA1, 0x5355, 0x4F4D, 0x51C0, 0x503C],
        [0x57FA, 0x91D1, 0x4EFD, 0x989D, 0x7D2F, 0x8BA1, 0x51C0, 0x503C],
        [0x4EA7, 0x54C1, 0x7D2F, 0x8BA1, 0x5355, 0x4F4D, 0x51C0, 0x503C],
        [0x5F53, 0x671F, 0x7D2F, 0x8BA1, 0x51C0, 0x503C],
        [0x8D44, 0x4EA7, 0x51C0, 0x503C, 0x7D2F, 0x8BA1, 0x51C0, 0x503C],
        [0x7D2F, 0x8BA1, 0x51C0, 0x503C],
        [0x5B9E, 0x9645, 0x7D2F, 0x8BA1, 0x51C0, 0x503C],
        asc ''AccumulatedNAV/Share'',
        asc ''AccumulatedNAVShare'']),
     (nav_date,
       [[0x51C0, 0x503C, 0x65E5, 0x671F],
        [0x65E5, 0x671F],
        [0x4F30, 0x503C, 0x57FA, 0x51C6, 0x65E5],
        asc ''NAVAsOfDate''])]"

section \<open>The table path: \<^verbatim>\<open>extract_table_format\<close>\<close>

definition row_cleaned :: "cell list \<Rightarrow> ustring list" where
  "row_cleaned row = map (\<lambda>v. replace_cp 0x20 [] (replace_cp 0xA [] (py_str v))) row"

text \<open>
  \<^verbatim>\<open>any(pattern in cell or pattern.replace(' ', '') in cell for cell in row_cleaned)\<close>
\<close>

definition pattern_in_row :: "ustring \<Rightarrow> ustring list \<Rightarrow> bool" where
  "pattern_in_row pattern cells =
     list_ex (\<lambda>cell. contains cell pattern \<or> contains cell (replace_cp 0x20 [] pattern)) cells"

text \<open>
  The counter is incremented once for each field that has a matching pattern (the
  \<^verbatim>\<open>break\<close> leaves the loop over the field's patterns).
\<close>

definition matched_field_count :: "catalog \<Rightarrow> ustring list \<Rightarrow> nat" where
  "matched_field_count kws cells =
     length (filter (\<lambda>(field_name, patterns). list_ex (\<lambda>p. pattern_in_row p cells) patterns) kws)"

text \<open>The first of the rows \<^verbatim>\<open>range(min(5, len(df)))\<close> with at least two matched fields.\<close>

definition find_header_row :: "dataframe \<Rightarrow> catalog \<Rightarrow> nat option" where
  "find_header_row df kws =
     find (\<lambda>row_idx. 2 \<le> matched_field_count kws (row_cleaned (df ! row_idx)))
       [0 ..< min 5 (length df)]"

definition cleaned_headers :: "cell list \<Rightarrow> ustring list" where
  "cleaned_headers hdr = map (\<lambda>h. strip (replace_cp 0xA [0x20] (py_str h))) hdr"

text \<open>
  \<^verbatim>\<open>pd.isna(v) or str(v).strip() in ('', 'nan', 'NaN')\<close>
\<close>

definition blank_cell :: "cell \<Rightarrow> bool" where
  "blank_cell v \<longleftrightarrow>
     isna v \<or> strip (py_str v) = [] \<or> strip (py_str v) = asc ''nan'' \<or>
     strip (py_str v) = asc ''NaN''"

text \<open>
  \<^verbatim>\<open>data_row[col]\<close> looks the value up by column label. When the label is borne
  by one column the result is that cell. When several columns bear it the result is a
  Series, whose truth value in the test that follows raises ValueError: that is the
  result \<open>None\<close>, and the \<^verbatim>\<open>except\<close> clause of the function turns it into the
  return value \<^verbatim>\<open>None\<close>.
\<close>

definition getitem :: "ustring list \<Rightarrow> cell list \<Rightarrow> ustring \<Rightarrow> cell option" where
  "getitem columns data_row col =
     (case filter (\<lambda>(label, v). label = col) (zip columns data_row) of
        [(label, v)] \<Rightarrow> Some v
      | _ \<Rightarrow> None)"

datatype 'a lookup = Raised | Missing | Found 'a

text \<open>The loop \<^verbatim>\<open>for col in df_with_header.columns\<close> for one pattern.\<close>

fun col_loop :: "ustring list \<Rightarrow> cell list \<Rightarrow> ustring \<Rightarrow> ustring list \<Rightarrow> ustring lookup" where
  "col_loop columns data_row pattern [] = Missing"
| "col_loop columns data_row pattern (col # cols) =
     (let col_cleaned = replace_cp 0x20 [] (replace_cp 0xA [] col)
      in if contains col_cleaned pattern \<or> contains col_cleaned (replace_cp 0x20 [] pattern)
         then (case getitem columns data_row col of
                 None \<Rightarrow> Raised
               | Some v \<Rightarrow>
                   if \<not> isna v \<and> strip (py_str v) \<noteq> [] \<and> py_str v \<noteq> asc ''nan''
                   then Found (clean_value (py_str v))
                   else col_loop columns data_row pattern cols)
         else col_loop columns data_row pattern cols)"

text \<open>The loop \<^verbatim>\<open>for pattern in patterns\<close>, left as soon as a value is found.\<close>

fun pattern_loop :: "ustring list \<Rightarrow> cell list \<Rightarrow> ustring list \<Rightarrow> ustring lookup" where
  "pattern_loop columns data_row [] = Missing"
| "pattern_loop columns data_row (pattern # patterns) =
     (case col_loop columns data_row pattern columns of
        Raised \<Rightarrow> Raised
      | Found v \<Rightarrow> Found v
      | Missing \<Rightarrow> pattern_loop columns data_row patterns)"

text \<open>The loop over the fields of the catalog, building the row's \<^verbatim>\<open>result\<close>.\<close>

fun field_loop :: "ustring list \<Rightarrow> cell list \<Rightarrow> catalog \<Rightarrow> pydict \<Rightarrow> pydict option" where
  "field_loop columns data_row [] result = Some result"
| "field_loop columns data_row ((field_name, patterns) # kws) result =
     (case pattern_loop columns data_row patterns of
        Raised \<Rightarrow> None
      | Missing \<Rightarrow> field_loop columns data_row kws result
      | Found v \<Rightarrow> field_loop columns data_row kws (AList.update field_name v result))"

text \<open>The loop over the data rows, appending to \<^verbatim>\<open>results\<close>.\<close>

fun row_loop :: "ustring list \<Rightarrow> catalog \<Rightarrow> cell list list \<Rightarrow> pydict list \<Rightarrow> pydict list option" where
  "row_loop columns kws [] results = Some results"
| "row_loop columns kws (data_row # rows) results =
     (if list_all blank_cell data_row then row_loop columns kws rows results
      else (case field_loop columns data_row kws [] of
              None \<Rightarrow> None
            | Some result \<Rightarrow>
                row_loop columns kws rows
                  (if 3 \<le> length result then results @ [result] else results)))"

definition extract_table_format :: "dataframe \<Rightarrow> catalog \<Rightarrow> pydict list option" where
  "extract_table_format df kws =
     (case find_header_row df kws of
        None \<Rightarrow> None
      | Some header_row_idx \<Rightarrow>
          (let data_row_idx = header_row_idx + 1
           in if data_row_idx \<ge> length df then None
              else
                (let columns = cleaned_headers (df ! header_row_idx);
                     data_rows = drop data_row_idx df
                 in if length data_rows = 0 then None
                    else (case row_loop columns kws data_rows [] of
                            None \<Rightarrow> None
                          | Some results \<Rightarrow> if results \<noteq> [] then Some results else None))))"

section \<open>The key/value path: \<^verbatim>\<open>extract_keyvalue_format\<close>\<close>

definition header_patterns :: "ustring list" where
  "header_patterns =
     [[0x4EA7, 0x54C1, 0x540D, 0x79F0],
      [0x57FA, 0x91D1, 0x540D, 0x79F0],
      [0x540D, 0x79F0],
      [0x4EA7, 0x54C1, 0x4EE3, 0x7801],
      [0x57FA, 0x91D1, 0x4EE3, 0x7801],
      [0x4EE3, 0x7801],
      [0x5355, 0x4F4D, 0x51C0, 0x503C],
      [0x57FA, 0x91D1, 0x4EFD, 0x989D, 0x51C0, 0x503C],
      [0x4EA7, 0x54C1, 0x5355, 0x4F4D, 0x51C0, 0x503C],
      [0x51C0, 0x503C],
      [0x7D2F, 0x8BA1, 0x5355, 0x4F4D, 0x51C0, 0x503C],
      [0x57FA, 0x91D1, 0x4EFD, 0x989D, 0x7D2F, 0x8BA1, 0x51C0, 0x503C],
      [0x4EA7, 0x54C1, 0x7D2F, 0x8BA1, 0x5355, 0x4F4D, 0x51C0, 0x503C],
      [0x7D2F, 0x8BA1, 0x51C0, 0x503C],
      [0x51C0, 0x503C, 0x65E5, 0x671F],
      [0x65E5, 0x671F],
      [0x5BA2, 0x6237, 0x540D, 0x79F0],
      [0x4EFD, 0x989D],
      [0x53C2, 0x4E0E, 0x8BA1, 0x63D0, 0x4EFD, 0x989D],
      [0x8BA1, 0x63D0, 0x9891, 0x7387],
      [0x4E1A, 0x7EE9, 0x62A5, 0x916C],
      [0x63D0, 0x53D6, 0x51C0, 0x503C],
      [0x865A, 0x62DF, 0x51C0, 0x503C]]"

text \<open>
  \<^verbatim>\<open>is_header_keyword\<close>. The second argument is the set \<^verbatim>\<open>all_keywords\<close>;
  the loop over it only asks whether some element passes the test, so the order of the
  elements does not matter and a list serves.
\<close>

definition is_header_keyword :: "ustring \<Rightarrow> ustring list \<Rightarrow> bool" where
  "is_header_keyword v kwset \<longleftrightarrow>
     list_ex (\<lambda>keyword. contains v keyword \<or> contains keyword v) header_patterns \<or>
     list_ex (\<lambda>keyword. contains v keyword \<or> contains keyword v) kwset"

definition all_keywords :: "catalog \<Rightarrow> ustring list" where
  "all_keywords kws = concat (map snd kws)"

text \<open>\<^verbatim>\<open>s.replace(' ', '').replace('\n', '')\<close>\<close>

definition cleaned :: "ustring \<Rightarrow> ustring" where
  "cleaned s = replace_cp 0xA [] (replace_cp 0x20 [] s)"

text \<open>
  The flag \<^verbatim>\<open>is_match\<close> for a cell text (already stripped) and a pattern.
\<close>

definition is_match :: "ustring \<Rightarrow> ustring \<Rightarrow> bool" where
  "is_match cell_value pattern =
     (if cleaned cell_value = cleaned pattern then True
      else if contains cell_value pattern then
        (let idx = str_find cell_value pattern;
             before_char = (if idx > 0 then [cell_value ! nat (idx - 1)] else [])
         in \<not> (isalpha before_char \<or>
                (str_le [0x4E00] before_char \<and> str_le before_char [0x9FFF])))
      else False)"

text \<open>The flag \<^verbatim>\<open>better_field_match\<close>.\<close>

definition better_field_match :: "catalog \<Rightarrow> ustring \<Rightarrow> ustring \<Rightarrow> ustring \<Rightarrow> bool" where
  "better_field_match kws field_name cell_value_cleaned pattern_cleaned =
     list_ex (\<lambda>(other_field, other_patterns).
        other_field \<noteq> field_name \<and>
        list_ex (\<lambda>other_pattern.
           contains cell_value_cleaned (cleaned other_pattern) \<and>
           length (cleaned other_pattern) > length pattern_cleaned) other_patterns) kws"

text \<open>
  Layout 1, label and value in one cell around a full-width colon (U+FF1A): the value
  that is stored, if one is.
\<close>

definition same_cell_value :: "ustring \<Rightarrow> ustring list \<Rightarrow> ustring option" where
  "same_cell_value cell_value kwset =
     (if 0xFF1A \<in> set cell_value then
        (let parts = split_once 0xFF1A cell_value
         in if length parts = 2 then
              (let v = strip (parts ! 1)
               in if v \<noteq> [] \<and> v \<noteq> asc ''nan'' \<and> \<not> is_header_keyword v kwset
                  then Some (clean_value v) else None)
            else None)
      else None)"

text \<open>
  Layout 2, the loop \<^verbatim>\<open>for offset in [1, 2]\<close> over the cells to the right: the
  value that is stored, if one is.
\<close>

fun right_value :: "dataframe \<Rightarrow> nat \<Rightarrow> nat \<Rightarrow> ustring list \<Rightarrow> nat list \<Rightarrow> ustring option" where
  "right_value df i j kwset [] = None"
| "right_value df i j kwset (offset # offsets) =
     (if j + offset < ncols df then
        (let v = strip (py_str (iloc df i (j + offset)))
         in if v \<noteq> [] \<and> v \<noteq> asc ''nan'' \<and> v \<noteq> asc ''NaN'' \<and> \<not> is_header_keyword v kwset
            then Some (clean_value v)
            else right_value df i j kwset offsets)
      else right_value df i j kwset offsets)"

text \<open>
  The loop \<^verbatim>\<open>for pattern in patterns\<close> at one cell. A pattern that does not match,
  or is outdone by a longer pattern of another field, passes to the next pattern
  (\<^verbatim>\<open>continue\<close>); an accepted pattern ends the loop, whether or not a value was
  stored.
\<close>

fun kv_pattern_loop ::
  "dataframe \<Rightarrow> catalog \<Rightarrow> ustring list \<Rightarrow> ustring \<Rightarrow> nat \<Rightarrow> nat \<Rightarrow> ustring \<Rightarrow> ustring list \<Rightarrow>
   pydict \<Rightarrow> pydict" where
  "kv_pattern_loop df kws kwset field_name i j cell_value [] result = result"
| "kv_pattern_loop df kws kwset field_name i j cell_value (pattern # patterns) result =
     (if is_match cell_value pattern then
        (if better_field_match kws field_name (cleaned cell_value) (cleaned pattern)
         then kv_pattern_loop df kws kwset field_name i j cell_value patterns result
         else (case same_cell_value cell_value kwset of
                 Some v \<Rightarrow> AList.update field_name v result
               | None \<Rightarrow>
                   (case right_value df i j kwset [1, 2] of
                      Some v \<Rightarrow> AList.update field_name v result
                    | None \<Rightarrow> result)))
      else kv_pattern_loop df kws kwset field_name i j cell_value patterns result)"

text \<open>The loop \<^verbatim>\<open>for j in range(len(df.columns))\<close> in row \<open>i\<close>.\<close>

fun kv_col_loop ::
  "dataframe \<Rightarrow> catalog \<Rightarrow> ustring list \<Rightarrow> ustring \<Rightarrow> ustring list \<Rightarrow> nat \<Rightarrow> nat list \<Rightarrow>
   pydict \<Rightarrow> pydict" where
  "kv_col_loop df kws kwset field_name patterns i [] result = result"
| "kv_col_loop df kws kwset field_name patterns i (j # js) result =
     (let cell_value = strip (py_str (iloc df i j));
          result' = kv_pattern_loop df kws kwset field_name i j cell_value patterns result
      in if has_key result' field_name then result'
         else kv_col_loop df kws kwset field_name patterns i js result')"

text \<open>The loop \<^verbatim>\<open>for i in range(len(df))\<close>.\<close>

fun kv_row_loop ::
  "dataframe \<Rightarrow> catalog \<Rightarrow> ustring list \<Rightarrow> ustring \<Rightarrow> ustring list \<Rightarrow> nat list \<Rightarrow>
   pydict \<Rightarrow> pydict" where
  "kv_row_loop df kws kwset field_name patterns [] result = result"
| "kv_row_loop df kws kwset field_name patterns (i # is) result =
     (let result' = kv_col_loop df kws kwset field_name patterns i [0 ..< ncols df] result
      in if has_key result' field_name then result'
         else kv_row_loop df kws kwset field_name patterns is result')"

text \<open>The loop over the fields; the first argument is the whole catalog.\<close>

fun kv_field_loop :: "dataframe \<Rightarrow> catalog \<Rightarrow> ustring list \<Rightarrow> catalog \<Rightarrow> pydict \<Rightarrow> pydict" where
  "kv_field_loop df kws kwset [] result = result"
| "kv_field_loop df kws kwset ((field_name, patterns) # rest) result =
     kv_field_loop df kws kwset rest
       (kv_row_loop df kws kwset field_name patterns [0 ..< length df] result)"

definition extract_keyvalue_format :: "dataframe \<Rightarrow> catalog \<Rightarrow> pydict option" where
  "extract_keyvalue_format df kws =
     (let result = kv_field_loop df kws (all_keywords kws) kws []
      in if 3 \<le> length result then Some result else None)"

section \<open>Validation and orchestration\<close>

definition is_valid_result :: "pydict \<Rightarrow> bool" where
  "is_valid_result result \<longleftrightarrow>
     result \<noteq> [] \<and>
     list_all (\<lambda>field. case map_of result field of None \<Rightarrow> False | Some v \<Rightarrow> v \<noteq> [])
       [product_code, unit_nav]"

text \<open>
  \<^verbatim>\<open>extract_fund_data_smart\<close>; the result \<open>None\<close> is the return value
  \<^verbatim>\<open>None\<close>.
\<close>

definition extract_fund_data_smart :: "dataframe \<Rightarrow> pydict list option" where
  "extract_fund_data_smart df =
     (let valid_results =
            (case extract_table_format df fund_keywords of
               None \<Rightarrow> []
             | Some results \<Rightarrow> filter is_valid_result results)
      in if valid_results \<noteq> [] then Some valid_results
         else (case extract_keyvalue_format df fund_keywords of
                 None \<Rightarrow> None
               | Some result \<Rightarrow> if is_valid_result result then Some [result] else None))"

text \<open>The dictionary built by \<^verbatim>\<open>extract_and_normalize\<close>, one field per key.\<close>

record normalized =
  n_product_name :: "ustring option"
  n_product_code :: "ustring option"
  n_client_name :: "ustring option"
  n_participating_shares :: pyval
  n_nav_date :: "ustring option"
  n_unit_nav :: pyval
  n_accumulated_nav :: pyval
  n_accrual_frequency :: "ustring option"
  n_virtual_fee :: pyval
  n_withdrawal_nav :: pyval
  n_post_accrual_nav :: pyval

text \<open>
  \<^verbatim>\<open>convert_to_float(data.get(k)) if data.get(k) else None\<close>: a missing key and an
  empty string are both false.
\<close>

definition float_if_present :: "pydict \<Rightarrow> ustring \<Rightarrow> pyval" where
  "float_if_present d k =
     (case map_of d k of
        None \<Rightarrow> PNone
      | Some s \<Rightarrow> if s \<noteq> [] then convert_to_float (Some s) else PNone)"

definition normalize :: "pydict \<Rightarrow> normalized" where
  "normalize d =
     \<lparr> n_product_name = map_of d product_name,
       n_product_code = map_of d product_code,
       n_client_name = map_of d client_name,
       n_participating_shares = float_if_present d participating_shares,
       n_nav_date = normalize_date (map_of d nav_date),
       n_unit_nav = convert_to_float (map_of d unit_nav),
       n_accumulated_nav = float_if_present d accumulated_nav,
       n_accrual_frequency = map_of d accrual_frequency,
       n_virtual_fee = float_if_present d virtual_fee,
       n_withdrawal_nav = float_if_present d withdrawal_nav,
       n_post_accrual_nav = float_if_present d post_accrual_nav \<rparr>"

definition extract_and_normalize :: "dataframe \<Rightarrow> normalized list option" where
  "extract_and_normalize df =
     (case extract_fund_data_smart df of
        None \<Rightarrow> None
      | Some data_list \<Rightarrow> if data_list = [] then None else Some (map normalize data_list))"

section \<open>Definitions for the statements\<close>

text \<open>
  The claims speak of occurrences of an alias in a cell text, of candidate matches and
  of the fields a header row mentions. These definitions follow the words of the
  specification; the theorems below compare them with the functions above.
\<close>

text \<open>The alias \<open>p\<close> occurs in \<open>s\<close> at index \<open>n\<close>.\<close>

definition occurs_at :: "ustring \<Rightarrow> ustring \<Rightarrow> nat \<Rightarrow> bool" where
  "occurs_at s p n \<longleftrightarrow> n \<le> length s \<and> starts_with (drop n s) p"

text \<open>
  A candidate match as the specification words it: the cell text equals the alias after
  spaces and line breaks are removed, or the alias occurs in the cell text and the
  character before the occurrence, if there is one, is neither a letter nor a CJK
  ideograph (U+4E00 to U+9FFF). The occurrence is the leftmost one.
\<close>

definition candidate_match :: "ustring \<Rightarrow> ustring \<Rightarrow> bool" where
  "candidate_match cell_text alias \<longleftrightarrow>
     cleaned cell_text = cleaned alias \<or>
     (\<exists>n. occurs_at cell_text alias n \<and> (\<forall>m<n. \<not> occurs_at cell_text alias m) \<and>
          (0 < n \<longrightarrow> \<not> (isalpha_cp (cell_text ! (n - 1)) \<or>
                           (0x4E00 \<le> cell_text ! (n - 1) \<and> cell_text ! (n - 1) \<le> 0x9FFF))))"

text \<open>
  The canonical fields that have an alias occurring in some cell of a row, and the
  header test of the specification: at least two distinct fields.
\<close>

definition fields_in_row :: "catalog \<Rightarrow> ustring list \<Rightarrow> ustring set" where
  "fields_in_row kws cells =
     {f. \<exists>ps p cell. (f, ps) \<in> set kws \<and> p \<in> set ps \<and> cell \<in> set cells \<and> contains cell p}"

definition header_qualifies :: "catalog \<Rightarrow> cell list \<Rightarrow> bool" where
  "header_qualifies kws row \<longleftrightarrow> 2 \<le> card (fields_in_row kws (row_cleaned row))"

text \<open>
  The sequence of records a return value stands for: \<^verbatim>\<open>None\<close> is the engine's
  signal that there are none.
\<close>

definition records_of :: "'a list option \<Rightarrow> 'a list" where
  "records_of r = (case r of None \<Rightarrow> [] | Some rs \<Rightarrow> rs)"

text \<open>A text is blank when nothing is left of it after stripping white space.\<close>

definition blank :: "ustring \<Rightarrow> bool" where
  "blank s \<longleftrightarrow> strip s = []"

text \<open>
  When a candidate value is accepted: it is not empty, it is not the text
  \<^verbatim>\<open>'nan'\<close> (for a cell to the right, nor \<^verbatim>\<open>'NaN'\<close>), and it is not
  recognized as a header keyword.
\<close>

definition acceptable_same_cell :: "ustring \<Rightarrow> ustring list \<Rightarrow> bool" where
  "acceptable_same_cell v kwset \<longleftrightarrow> v \<noteq> [] \<and> v \<noteq> asc ''nan'' \<and> \<not> is_header_keyword v kwset"

definition acceptable_right_cell :: "ustring \<Rightarrow> ustring list \<Rightarrow> bool" where
  "acceptable_right_cell v kwset \<longleftrightarrow>
     v \<noteq> [] \<and> v \<noteq> asc ''nan'' \<and> v \<noteq> asc ''NaN'' \<and> \<not> is_header_keyword v kwset"

text \<open>
  A header label is matched when some alias of the catalog occurs in it, as the loop
  over the columns tests it; the matched labels are unambiguous when each is borne by
  exactly one column.
\<close>

definition label_matched :: "catalog \<Rightarrow> ustring \<Rightarrow> bool" where
  "label_matched kws col \<longleftrightarrow>
     (\<exists>(f, ps) \<in> set kws. \<exists>p \<in> set ps.
        contains (replace_cp 0x20 [] (replace_cp 0xA [] col)) p \<or>
        contains (replace_cp 0x20 [] (replace_cp 0xA [] col)) (replace_cp 0x20 [] p))"

definition unambiguous_labels :: "catalog \<Rightarrow> ustring list \<Rightarrow> bool" where
  "unambiguous_labels kws columns \<longleftrightarrow>
     (\<forall>col \<in> set columns. label_matched kws col \<longrightarrow> count_list columns col = 1)"

text \<open>
  A cell of a data row is present when it is not missing, its text is not blank and its
  text is not \<^verbatim>\<open>'nan'\<close>. A data row carries a field with the aliases \<open>ps\<close> when
  some column whose label contains one of the aliases has a present cell in the row.
\<close>

definition present :: "cell \<Rightarrow> bool" where
  "present v \<longleftrightarrow> \<not> isna v \<and> strip (py_str v) \<noteq> [] \<and> py_str v \<noteq> asc ''nan''"

definition carries :: "ustring list \<Rightarrow> cell list \<Rightarrow> ustring list \<Rightarrow> bool" where
  "carries columns data_row ps \<longleftrightarrow>
     (\<exists>p \<in> set ps. \<exists>col \<in> set columns.
        (contains (replace_cp 0x20 [] (replace_cp 0xA [] col)) p \<or>
         contains (replace_cp 0x20 [] (replace_cp 0xA [] col)) (replace_cp 0x20 [] p)) \<and>
        (\<exists>v. getitem columns data_row col = Some v \<and> present v))"

definition carried_fields :: "catalog \<Rightarrow> ustring list \<Rightarrow> cell list \<Rightarrow> ustring set" where
  "carried_fields kws columns data_row = {f. \<exists>ps. (f, ps) \<in> set kws \<and> carries columns data_row ps}"

text \<open>
  Every entry of a record has a key from the set \<open>K\<close> and a value that
  \<^verbatim>\<open>clean_value\<close> produced.
\<close>

definition entries_ok :: "ustring set \<Rightarrow> pydict \<Rightarrow> bool" where
  "entries_ok K d \<longleftrightarrow> (\<forall>(k, v) \<in> set d. k \<in> K \<and> (\<exists>x. v = clean_value x))"

subsection \<open>The grids and cells of the examples\<close>

text \<open>The alias "net value" (jingzhi) and the alias "name" (mingcheng).\<close>

definition alias_net_value :: ustring where
  "alias_net_value = [0x51C0, 0x503C]"

definition alias_name :: ustring where
  "alias_name = [0x540D, 0x79F0]"

text \<open>The cell "accumulated unit net value", full-width colon, "1.23".\<close>

definition accumulated_cell :: ustring where
  "accumulated_cell =
     [0x7D2F, 0x8BA1, 0x5355, 0x4F4D, 0x51C0, 0x503C, 0xFF1A, 0x31, 0x2E, 0x32, 0x33]"

text \<open>The cell "net value date", full-width colon, "2024".\<close>

definition date_label_cell :: ustring where
  "date_label_cell = [0x51C0, 0x503C, 0x65E5, 0x671F, 0xFF1A, 0x32, 0x30, 0x32, 0x34]"

text \<open>The cell "product code", full-width colon, "T05851".\<close>

definition code_cell :: ustring where
  "code_cell = [0x4EA7, 0x54C1, 0x4EE3, 0x7801, 0xFF1A, 0x54, 0x30, 0x35, 0x38, 0x35, 0x31]"

text \<open>
  A key/value sheet whose product code stands directly below its label, every other
  value to the right of its label.
\<close>

definition below_df :: dataframe where
  "below_df =
     [[Val product_name, Val (asc ''Fund A''), NaN],
      [Val unit_nav, Val (asc ''1.5''), NaN],
      [Val nav_date, Val (asc ''20240130''), NaN],
      [Val product_code, NaN, NaN],
      [Val (asc ''T05851''), NaN, NaN]]"

text \<open>The same sheet with another text in the cell below the label.\<close>

definition below_df' :: dataframe where
  "below_df' =
     [[Val product_name, Val (asc ''Fund A''), NaN],
      [Val unit_nav, Val (asc ''1.5''), NaN],
      [Val nav_date, Val (asc ''20240130''), NaN],
      [Val product_code, NaN, NaN],
      [Val (asc ''X''), NaN, NaN]]"

text \<open>The one-cell grid with the caption "net asset value report" (zichan jingzhi baogao).\<close>

definition title_df :: dataframe where
  "title_df = [[Val [0x8D44, 0x4EA7, 0x51C0, 0x503C, 0x62A5, 0x544A]]]"

text \<open>
  The table of the specification: a header row with the labels fund code, fund name,
  net value date, unit net value, accumulated unit net value, and two data rows.
\<close>

definition table_df :: dataframe where
  "table_df =
     [[Val [0x57FA, 0x91D1, 0x4EE3, 0x7801], Val [0x57FA, 0x91D1, 0x540D, 0x79F0],
       Val [0x51C0, 0x503C, 0x65E5, 0x671F], Val [0x5355, 0x4F4D, 0x51C0, 0x503C],
       Val [0x7D2F, 0x8BA1, 0x5355, 0x4F4D, 0x51C0, 0x503C]],
      [Val (asc ''ABC123''), Val (asc ''Test Fund''), Val (asc ''20250121''),
       Val (asc ''1.5000''), Val (asc ''1.5000'')],
      [Val (asc ''ABC124''), Val (asc ''Test Fund 2''), Val (asc ''20250122''),
       Val (asc ''2.0000''), Val (asc ''2.0000'')]]"

text \<open>A table whose second data row has no product code.\<close>

definition partial_df :: dataframe where
  "partial_df =
     [[Val [0x57FA, 0x91D1, 0x4EE3, 0x7801], Val [0x57FA, 0x91D1, 0x540D, 0x79F0],
       Val [0x51C0, 0x503C, 0x65E5, 0x671F], Val [0x5355, 0x4F4D, 0x51C0, 0x503C]],
      [Val (asc ''ABC123''), Val (asc ''Test Fund''), Val (asc ''20250121''), Val (asc ''1.5000'')],
      [NaN, Val (asc ''Test Fund 2''), Val (asc ''20250122''), Val (asc ''2.0000'')]]"

text \<open>A key/value sheet with every value to the right of its label.\<close>

definition keyvalue_df :: dataframe where
  "keyvalue_df =
     [[Val product_name, Val (asc ''Fund A'')],
      [Val product_code, Val (asc ''T05851'')],
      [Val unit_nav, Val (asc ''1.5'')]]"

text \<open>The same sheet with a client name (kehu mingcheng) in its first row.\<close>

definition client_df :: dataframe where
  "client_df =
     [[Val client_name, Val (asc ''Client B'')],
      [Val product_name, Val (asc ''Fund A'')],
      [Val product_code, Val (asc ''T05851'')],
      [Val unit_nav, Val (asc ''1.5'')]]"

text \<open>
  A key/value sheet whose product code stands two cells to the right of its label, and
  whose unit value has acceptable texts in both cells to the right of its label.
\<close>

definition offsets_df :: dataframe where
  "offsets_df =
     [[Val product_code, NaN, Val (asc ''T05851'')],
      [Val unit_nav, Val (asc ''1.5''), Val (asc ''9.9'')]]"

text \<open>
  A table in which two columns bear the label "unit net value"; the data row has a fund
  code, a fund name and unit values.
\<close>

definition duplicate_df :: dataframe where
  "duplicate_df =
     [[Val [0x57FA, 0x91D1, 0x4EE3, 0x7801], Val [0x57FA, 0x91D1, 0x540D, 0x79F0],
       Val [0x5355, 0x4F4D, 0x51C0, 0x503C], Val [0x5355, 0x4F4D, 0x51C0, 0x503C]],
      [Val (asc ''ABC123''), Val (asc ''Test Fund''), Val (asc ''1.5000''), Val (asc ''1.6000'')]]"

section \<open>Properties of the value normalizer\<close>

subsection \<open>Strings with a comma are never numbers\<close>

lemma in_dropWhile: "x \<in> set xs \<Longrightarrow> \<not> P x \<Longrightarrow> x \<in> set (dropWhile P xs)"
  by (induction xs) auto

lemma to_ascii_keeps_comma:
  "0x2C \<in> set s \<Longrightarrow> 0x2C \<in> set (to_ascii s) \<or> 0x3F \<in> set (to_ascii s)"
  by (induction s) (auto split: option.splits)

lemma drop_underscores_keeps:
  "drop_underscores prev s = Some t \<Longrightarrow> c \<in> set s \<Longrightarrow> c \<noteq> 0x5F \<Longrightarrow> c \<in> set t"
  by (induction prev s arbitrary: t rule: drop_underscores.induct) (auto split: if_splits)

lemma take_sign_keeps:
  "take_sign t = (neg, body) \<Longrightarrow> c \<in> set t \<Longrightarrow> c \<noteq> 0x2D \<Longrightarrow> c \<noteq> 0x2B \<Longrightarrow> c \<in> set body"
  by (auto simp: take_sign_def split: list.splits if_splits)

lemma parse_exponent_chars:
  "parse_exponent r = Some e \<Longrightarrow> c \<in> set r \<Longrightarrow>
   ascii_digit c \<or> c = 0x65 \<or> c = 0x45 \<or> c = 0x2D \<or> c = 0x2B"
  by (auto simp: parse_exponent_def take_sign_def list_all_iff split: list.splits if_splits prod.splits)

lemma parse_decimal_chars:
  assumes "parse_decimal neg s = Some f" and "c \<in> set s"
  shows "ascii_digit c \<or> c = 0x2E \<or> c = 0x65 \<or> c = 0x45 \<or> c = 0x2D \<or> c = 0x2B"
proof -
  define r1 where "r1 = dropWhile ascii_digit s"
  have s: "s = takeWhile ascii_digit s @ r1" by (simp add: r1_def)
  from assms(2) s have "c \<in> set (takeWhile ascii_digit s) \<or> c \<in> set r1"
    by (metis Un_iff set_append)
  then show ?thesis
  proof
    assume "c \<in> set (takeWhile ascii_digit s)"
    then show ?thesis by (auto dest: set_takeWhileD)
  next
    assume c: "c \<in> set r1"
    show ?thesis
    proof (cases r1)
      case Nil with c show ?thesis by simp
    next
      case (Cons x r)
      show ?thesis
      proof (cases "x = 0x2E")
        case True
        from assms(1) Cons True obtain e where e: "parse_exponent (dropWhile ascii_digit r) = Some e"
          by (auto simp: parse_decimal_def Let_def r1_def[symmetric] split: if_splits option.splits)
        have "r = takeWhile ascii_digit r @ dropWhile ascii_digit r" by simp
        with c Cons True have "c = 0x2E \<or> c \<in> set (takeWhile ascii_digit r) \<or> c \<in> set (dropWhile ascii_digit r)"
          by (metis Un_iff set_ConsD set_append)
        then show ?thesis using parse_exponent_chars[OF e] by (auto dest: set_takeWhileD)
      next
        case False
        from assms(1) Cons False obtain e where e: "parse_exponent r1 = Some e"
          by (auto simp: parse_decimal_def Let_def r1_def[symmetric] split: if_splits option.splits)
        show ?thesis using parse_exponent_chars[OF e c] by blast
      qed
    qed
  qed
qed

lemma parse_float_comma:
  assumes "0x2C \<in> set s" shows "parse_float s = None"
proof -
  define a where "a = to_ascii s"
  define b where "b = rev (dropWhile ascii_space (rev (dropWhile ascii_space a)))"
  from to_ascii_keeps_comma[OF assms] obtain c where c: "c \<in> set a" "c = 0x2C \<or> c = 0x3F"
    unfolding a_def by blast
  then have nsp: "\<not> ascii_space c" by (auto simp: ascii_space_def)
  have cb: "c \<in> set b"
    unfolding b_def using c(1) nsp by (simp add: in_dropWhile)
  show ?thesis
  proof (cases "drop_underscores 0 b")
    case None
    then show ?thesis by (simp add: parse_float_def a_def[symmetric] b_def[symmetric])
  next
    case (Some t)
    obtain neg body where ts: "take_sign t = (neg, body)" by (cases "take_sign t")
    have ct: "c \<in> set t" using drop_underscores_keeps[OF Some cb] c(2) by auto
    have cbody: "c \<in> set body" using take_sign_keeps[OF ts ct] c(2) by auto
    have low: "c \<in> set (ascii_lower body)"
    proof -
      have "(if 0x41 \<le> c \<and> c \<le> 0x5A then c + 0x20 else c) = c" using c(2) by auto
      with cbody show ?thesis unfolding ascii_lower_def by force
    qed
    have n1: "ascii_lower body \<noteq> asc ''inf''" using low c(2) by (auto simp: asc_def)
    have n2: "ascii_lower body \<noteq> asc ''infinity''" using low c(2) by (auto simp: asc_def)
    have n3: "ascii_lower body \<noteq> asc ''nan''" using low c(2) by (auto simp: asc_def)
    have n4: "parse_decimal neg body = None"
    proof (cases "parse_decimal neg body")
      case None then show ?thesis .
    next
      case (Some f)
      from parse_decimal_chars[OF Some cbody] c(2) show ?thesis by (auto simp: ascii_digit_def)
    qed
    show ?thesis
      using Some ts n1 n2 n3 n4
      by (simp add: parse_float_def a_def[symmetric] b_def[symmetric])
  qed
qed

subsection \<open>The loop over the date formats\<close>






lemma float_example_plain:
  "convert_to_float (Some (asc ''1234.56'')) = PFloat (Dec False 123456 (- 2))"
  by code_simp

lemma float_example_underscore:
  "convert_to_float (Some (asc ''1_234.56'')) = PFloat (Dec False 123456 (- 2))"
  by code_simp


lemma length_digits_of: "length (digits_of w n) = w"
  by (induction w n rule: digits_of.induct) simp_all

lemma strftime_four_digit_year:
  "1000 \<le> year dt \<Longrightarrow>
   strftime_Ymd dt = digits_of 4 (year dt) @ digits_of 2 (month dt) @ digits_of 2 (day dt)"
  by (simp add: strftime_Ymd_def year_digits_def)

lemma strftime_short_year: "year dt < 1000 \<Longrightarrow> length (strftime_Ymd dt) < 8"
  by (simp add: strftime_Ymd_def year_digits_def length_digits_of)

section \<open>The claims about the value normalizer\<close>




text \<open>
  C8, as stated, fails: \<^verbatim>\<open>float\<close> knows no thousands separators, so
  \<^verbatim>\<open>"1,234.56"\<close> is not coerced to a number; it is returned as the string it was.
\<close>

theorem convert_to_float_thousands_counterexample:
  "convert_to_float (Some (asc ''1,234.56'')) = PStr (asc ''1,234.56'')"
  by code_simp

text \<open>
  C8, amended: \<^verbatim>\<open>convert_to_float\<close> attempts the coercion \<^verbatim>\<open>float(value)\<close>,
  which does not accept the comma as a thousands separator: every string that contains a
  comma, such as \<^verbatim>\<open>"1,234.56"\<close>, is returned unchanged, while \<^verbatim>\<open>"1234.56"\<close>
  (and Python's own digit grouping \<^verbatim>\<open>"1_234.56"\<close>) becomes the number 1234.56. For
  every input on which the coercion fails it returns the original value unchanged rather
  than raising.
\<close>

theorem convert_to_float_amended:
  "(parse_float s = None \<longrightarrow> convert_to_float (Some s) = PStr s) \<and>
   (0x2C \<in> set s \<longrightarrow> convert_to_float (Some s) = PStr s) \<and>
   convert_to_float (Some (asc ''1234.56'')) = PFloat (Dec False 123456 (- 2)) \<and>
   convert_to_float (Some (asc ''1_234.56'')) = PFloat (Dec False 123456 (- 2)) \<and>
   convert_to_float None = PNone"
  using parse_float_comma[of s] float_example_plain float_example_underscore
  by (auto simp: convert_to_float_def)

theorem convert_to_float_amended_witness:
  "parse_float (asc ''T05851'') = None \<and>
   convert_to_float (Some (asc ''T05851'')) = PStr (asc ''T05851'') \<and>
   0x2C \<in> set (asc ''860,511.14'') \<and>
   convert_to_float (Some (asc ''860,511.14'')) = PStr (asc ''860,511.14'')"
proof -
  have h1: "parse_float (asc ''T05851'') = None" by code_simp
  have h2: "0x2C \<in> set (asc ''860,511.14'')" by code_simp
  from convert_to_float_amended[of "asc ''T05851''"] h1
  have r1: "convert_to_float (Some (asc ''T05851'')) = PStr (asc ''T05851'')" by blast
  from convert_to_float_amended[of "asc ''860,511.14''"] h2
  have r2: "convert_to_float (Some (asc ''860,511.14'')) = PStr (asc ''860,511.14'')" by blast
  show ?thesis using h1 h2 r1 r2 by simp
qed

section \<open>Properties of the key/value scan\<close>

subsection \<open>Occurrences and \<^verbatim>\<open>find\<close>\<close>

lemma occurs_at_0: "occurs_at s p 0 \<longleftrightarrow> starts_with s p"
  by (simp add: occurs_at_def)

lemma occurs_at_Suc: "occurs_at (c # s) p (Suc n) \<longleftrightarrow> occurs_at s p n"
  by (simp add: occurs_at_def)

lemma occurs_at_Nil: "occurs_at [] p n \<longleftrightarrow> n = 0 \<and> p = []"
  by (auto simp: occurs_at_def starts_with_def)

lemma contains_iff_occurs: "contains s p \<longleftrightarrow> (\<exists>n. occurs_at s p n)"
proof (induction s)
  case Nil
  then show ?case by (auto simp: occurs_at_Nil)
next
  case (Cons c s)
  show ?case
  proof
    assume "contains (c # s) p"
    then consider "starts_with (c # s) p" | "contains s p" by auto
    then show "\<exists>n. occurs_at (c # s) p n"
    proof cases
      case 1 then show ?thesis using occurs_at_0 by blast
    next
      case 2 with Cons obtain n where "occurs_at s p n" by blast
      then have "occurs_at (c # s) p (Suc n)" by (simp add: occurs_at_Suc)
      then show ?thesis by blast
    qed
  next
    assume "\<exists>n. occurs_at (c # s) p n"
    then obtain n where n: "occurs_at (c # s) p n" by blast
    show "contains (c # s) p"
    proof (cases n)
      case 0 with n show ?thesis by (simp add: occurs_at_0)
    next
      case (Suc k)
      with n have "occurs_at s p k" by (simp add: occurs_at_Suc)
      with Cons show ?thesis by auto
    qed
  qed
qed

lemma str_find_none: "\<not> contains s p \<Longrightarrow> str_find s p = - 1"
  by (induction s) (auto simp: Let_def)

lemma str_find_first:
  "contains s p \<Longrightarrow>
   \<exists>n. str_find s p = int n \<and> occurs_at s p n \<and> (\<forall>m<n. \<not> occurs_at s p m)"
proof (induction s)
  case Nil
  then show ?case by (auto simp: occurs_at_Nil)
next
  case (Cons c s)
  show ?case
  proof (cases "starts_with (c # s) p")
    case True
    then have "str_find (c # s) p = int 0 \<and> occurs_at (c # s) p 0 \<and> (\<forall>m<0. \<not> occurs_at (c # s) p m)"
      by (simp add: occurs_at_0)
    then show ?thesis by blast
  next
    case False
    with Cons.prems have "contains s p" by simp
    from Cons.IH[OF this] obtain n where
      n: "str_find s p = int n" "occurs_at s p n" "\<forall>m<n. \<not> occurs_at s p m" by blast
    have 1: "str_find (c # s) p = int (Suc n)" using False n(1) by (simp add: Let_def)
    have 2: "occurs_at (c # s) p (Suc n)" using n(2) by (simp add: occurs_at_Suc)
    have 3: "\<forall>m<Suc n. \<not> occurs_at (c # s) p m"
    proof (intro allI impI)
      fix m assume m: "m < Suc n"
      show "\<not> occurs_at (c # s) p m"
      proof (cases m)
        case 0 with False show ?thesis by (simp add: occurs_at_0)
      next
        case (Suc k)
        with m n(3) show ?thesis by (simp add: occurs_at_Suc)
      qed
    qed
    from 1 2 3 show ?thesis by blast
  qed
qed

lemma first_occurrence_unique:
  "occurs_at s p n \<Longrightarrow> \<forall>m<n. \<not> occurs_at s p m \<Longrightarrow>
   occurs_at s p n' \<Longrightarrow> \<forall>m<n'. \<not> occurs_at s p m \<Longrightarrow> n = n'"
  by (meson nat_neq_iff)

lemma isalpha_single: "isalpha [c] = isalpha_cp c" and isalpha_empty: "isalpha [] = False"
  by (simp_all add: isalpha_def)

lemma is_match_iff: "is_match cell_text alias \<longleftrightarrow> candidate_match cell_text alias"
proof (cases "cleaned cell_text = cleaned alias")
  case True
  then show ?thesis by (simp add: is_match_def candidate_match_def)
next
  case neq: False
  show ?thesis
  proof (cases "contains cell_text alias")
    case False
    then have "\<not> is_match cell_text alias" using neq by (simp add: is_match_def)
    moreover have "\<not> candidate_match cell_text alias"
      using False neq contains_iff_occurs by (auto simp: candidate_match_def)
    ultimately show ?thesis by simp
  next
    case True
    from str_find_first[OF True] obtain n where
      n: "str_find cell_text alias = int n" "occurs_at cell_text alias n"
         "\<forall>m<n. \<not> occurs_at cell_text alias m" by blast
    let ?ok = "0 < n \<longrightarrow> \<not> (isalpha_cp (cell_text ! (n - 1)) \<or>
                 (0x4E00 \<le> cell_text ! (n - 1) \<and> cell_text ! (n - 1) \<le> 0x9FFF))"
    have lhs: "is_match cell_text alias \<longleftrightarrow> ?ok"
    proof (cases n)
      case 0
      then show ?thesis using neq True n(1) by (simp add: is_match_def isalpha_empty)
    next
      case (Suc k)
      then have "nat (int n - 1) = n - 1" by simp
      then show ?thesis using neq True n(1) Suc
        by (auto simp: is_match_def Let_def isalpha_single)
    qed
    have rhs: "candidate_match cell_text alias \<longleftrightarrow> ?ok"
    proof
      assume "candidate_match cell_text alias"
      with neq obtain n' where n': "occurs_at cell_text alias n'"
        "\<forall>m<n'. \<not> occurs_at cell_text alias m"
        "0 < n' \<longrightarrow> \<not> (isalpha_cp (cell_text ! (n' - 1)) \<or>
                 (0x4E00 \<le> cell_text ! (n' - 1) \<and> cell_text ! (n' - 1) \<le> 0x9FFF))"
        unfolding candidate_match_def by blast
      have "n = n'" using first_occurrence_unique[OF n(2,3) n'(1,2)] .
      with n'(3) show ?ok by simp
    next
      assume ?ok
      with n(2,3) show "candidate_match cell_text alias"
        unfolding candidate_match_def by blast
    qed
    from lhs rhs show ?thesis by simp
  qed
qed

subsection \<open>The tie-break and the value layouts\<close>

lemma better_field_match_iff:
  "better_field_match kws field_name cvc pc \<longleftrightarrow>
   (\<exists>(other_field, other_patterns) \<in> set kws. other_field \<noteq> field_name \<and>
      (\<exists>q \<in> set other_patterns. contains cvc (cleaned q) \<and> length pc < length (cleaned q)))"
  by (auto simp: better_field_match_def list_ex_iff)

lemma right_value_same_row:
  "df ! i = df' ! i \<Longrightarrow> ncols df = ncols df' \<Longrightarrow>
   right_value df i j kwset offsets = right_value df' i j kwset offsets"
  by (induction offsets) (auto simp: iloc_def Let_def)

lemma kv_pattern_loop_same_row:
  assumes "df ! i = df' ! i" and "ncols df = ncols df'"
  shows "kv_pattern_loop df kws kwset f i j cv ps result =
         kv_pattern_loop df' kws kwset f i j cv ps result"
proof (induction ps)
  case Nil
  show ?case by simp
next
  case (Cons p ps)
  have r: "right_value df i j kwset [1, 2] = right_value df' i j kwset [1, 2]"
    using assms by (rule right_value_same_row)
  show ?case
    unfolding kv_pattern_loop.simps r Cons by (rule refl)
qed

lemma same_cell_value_iff:
  "same_cell_value cv kwset = Some v \<longleftrightarrow>
   (\<exists>label rest. cv = label @ 0xFF1A # rest \<and> 0xFF1A \<notin> set label \<and>
      acceptable_same_cell (strip rest) kwset \<and> v = clean_value (strip rest))"
proof
  let ?ne = "\<lambda>c. c \<noteq> (0xFF1A::nat)"
  assume a: "same_cell_value cv kwset = Some v"
  then have mem: "0xFF1A \<in> set cv"
    by (auto simp: same_cell_value_def split: if_splits)
  then have parts: "split_once 0xFF1A cv = [takeWhile ?ne cv, tl (dropWhile ?ne cv)]"
    by (simp add: split_once_def)
  from a mem parts have v: "v = clean_value (strip (tl (dropWhile ?ne cv)))"
    and acc: "acceptable_same_cell (strip (tl (dropWhile ?ne cv))) kwset"
    by (auto simp: same_cell_value_def acceptable_same_cell_def Let_def split: if_splits)
  from mem have ne: "dropWhile ?ne cv \<noteq> []" by simp
  then have "hd (dropWhile ?ne cv) = 0xFF1A" using hd_dropWhile[of ?ne cv] by simp
  with ne have d: "dropWhile ?ne cv = 0xFF1A # tl (dropWhile ?ne cv)"
    by (metis list.collapse)
  have "cv = takeWhile ?ne cv @ dropWhile ?ne cv" by simp
  with d have "cv = takeWhile ?ne cv @ 0xFF1A # tl (dropWhile ?ne cv)" by simp
  moreover have "0xFF1A \<notin> set (takeWhile ?ne cv)" by (auto dest: set_takeWhileD)
  ultimately show "\<exists>label rest. cv = label @ 0xFF1A # rest \<and> 0xFF1A \<notin> set label \<and>
      acceptable_same_cell (strip rest) kwset \<and> v = clean_value (strip rest)"
    using v acc by blast
next
  let ?ne = "\<lambda>c. c \<noteq> (0xFF1A::nat)"
  assume "\<exists>label rest. cv = label @ 0xFF1A # rest \<and> 0xFF1A \<notin> set label \<and>
      acceptable_same_cell (strip rest) kwset \<and> v = clean_value (strip rest)"
  then obtain label rest where
    cv: "cv = label @ 0xFF1A # rest" and nl: "0xFF1A \<notin> set label" and
    acc: "acceptable_same_cell (strip rest) kwset" and v: "v = clean_value (strip rest)"
    by blast
  from nl have all: "\<And>x. x \<in> set label \<Longrightarrow> ?ne x" by auto
  have "dropWhile ?ne cv = dropWhile ?ne (0xFF1A # rest)"
    unfolding cv using all by (rule dropWhile_append2)
  then have tl: "tl (dropWhile ?ne cv) = rest" by simp
  have mem: "0xFF1A \<in> set cv" using cv by simp
  then have parts: "split_once 0xFF1A cv = [takeWhile ?ne cv, tl (dropWhile ?ne cv)]"
    by (simp add: split_once_def)
  from mem parts tl acc v show "same_cell_value cv kwset = Some v"
    by (simp add: same_cell_value_def acceptable_same_cell_def Let_def)
qed

lemma right_value_priority:
  "right_value df i j kwset [1, 2] =
     (if j + 1 < ncols df \<and> acceptable_right_cell (strip (py_str (iloc df i (j + 1)))) kwset
      then Some (clean_value (strip (py_str (iloc df i (j + 1)))))
      else if j + 2 < ncols df \<and> acceptable_right_cell (strip (py_str (iloc df i (j + 2)))) kwset
      then Some (clean_value (strip (py_str (iloc df i (j + 2)))))
      else None)"
  by (simp add: Let_def acceptable_right_cell_def)

lemma accumulated_cell_scan:
  "kv_field_loop [[Val accumulated_cell]] fund_keywords (all_keywords fund_keywords) fund_keywords []
   = [(accumulated_nav, asc ''1.23'')]"
  by code_simp

lemma accumulated_cell_net_value:
  "kv_pattern_loop [[Val accumulated_cell]] fund_keywords (all_keywords fund_keywords) unit_nav 0 0
     accumulated_cell [alias_net_value] [] = []"
  by code_simp

lemma client_name_no_match: "\<not> is_match client_name alias_name"
  by code_simp

section \<open>The claims about the key/value scan\<close>

text \<open>
  C1: in the key/value scan, a match of a field's alias at a cell is discarded (the
  loop passes to the field's next alias as if the alias had not matched) whenever another
  field has an alias that occurs in the same normalized cell text and is strictly longer
  than the matched alias. For the cell "accumulated unit net value: 1.23" the field unit
  net value does not bind through its alias "net value", and the scan of the cell binds
  the field accumulated unit net value, to 1.23.
\<close>

theorem most_specific_match_wins:
  "(is_match cell_value pattern \<and>
    (\<exists>(other_field, other_patterns) \<in> set kws. other_field \<noteq> field_name \<and>
       (\<exists>q \<in> set other_patterns.
          contains (cleaned cell_value) (cleaned q) \<and>
          length (cleaned pattern) < length (cleaned q)))
    \<longrightarrow> kv_pattern_loop df kws kwset field_name i j cell_value (pattern # patterns) result =
        kv_pattern_loop df kws kwset field_name i j cell_value patterns result) \<and>
   kv_pattern_loop [[Val accumulated_cell]] fund_keywords (all_keywords fund_keywords) unit_nav 0 0
     accumulated_cell [alias_net_value] [] = [] \<and>
   kv_field_loop [[Val accumulated_cell]] fund_keywords (all_keywords fund_keywords) fund_keywords []
     = [(accumulated_nav, asc ''1.23'')]"
proof -
  have "is_match cell_value pattern \<and>
    (\<exists>(other_field, other_patterns) \<in> set kws. other_field \<noteq> field_name \<and>
       (\<exists>q \<in> set other_patterns.
          contains (cleaned cell_value) (cleaned q) \<and>
          length (cleaned pattern) < length (cleaned q)))
    \<longrightarrow> kv_pattern_loop df kws kwset field_name i j cell_value (pattern # patterns) result =
        kv_pattern_loop df kws kwset field_name i j cell_value patterns result"
    using better_field_match_iff[of kws field_name "cleaned cell_value" "cleaned pattern"]
    by simp
  then show ?thesis
    using accumulated_cell_net_value accumulated_cell_scan by blast
qed

text \<open>
  The label "net value date: 2024" from the comment in the source: the alias "net value"
  of the field unit net value matches the cell, the alias "net value date" of the date
  field is longer, and the match is passed over.
\<close>

theorem most_specific_match_wins_witness:
  "is_match date_label_cell alias_net_value \<and>
   better_field_match fund_keywords unit_nav (cleaned date_label_cell) (cleaned alias_net_value) \<and>
   kv_pattern_loop [[Val date_label_cell]] fund_keywords (all_keywords fund_keywords) unit_nav 0 0
     date_label_cell [alias_net_value] [] = []"
proof -
  have m: "is_match date_label_cell alias_net_value" by code_simp
  have b: "better_field_match fund_keywords unit_nav (cleaned date_label_cell) (cleaned alias_net_value)"
    by code_simp
  then have b': "\<exists>(other_field, other_patterns) \<in> set fund_keywords. other_field \<noteq> unit_nav \<and>
       (\<exists>q \<in> set other_patterns.
          contains (cleaned date_label_cell) (cleaned q) \<and>
          length (cleaned alias_net_value) < length (cleaned q))"
    by (simp only: better_field_match_iff)
  from most_specific_match_wins[of date_label_cell alias_net_value fund_keywords unit_nav
      "[[Val date_label_cell]]" "all_keywords fund_keywords" 0 0 "[]" "[]"] m b'
  have "kv_pattern_loop [[Val date_label_cell]] fund_keywords (all_keywords fund_keywords) unit_nav 0 0
     date_label_cell [alias_net_value] [] =
     kv_pattern_loop [[Val date_label_cell]] fund_keywords (all_keywords fund_keywords) unit_nav 0 0
     date_label_cell [] []"
    by blast
  then show ?thesis using m b by simp
qed

text \<open>
  C4, as stated, fails: the scan has no layout that looks below the label. In the sheet
  \<open>below_df\<close> the product code T05851 stands directly below its label and nowhere
  else; the scan returns the name, the unit value and the date, and no product code.
\<close>

theorem value_below_label_counterexample:
  "iloc below_df 3 0 = Val product_code \<and> iloc below_df 4 0 = Val (asc ''T05851'') \<and>
   extract_keyvalue_format below_df fund_keywords =
     Some [(product_name, asc ''Fund A''), (unit_nav, asc ''1.5''), (nav_date, asc ''20240130'')]"
  by code_simp

text \<open>
  C4, amended: once a field's label cell is accepted, the value is located by trying
  exactly two layouts in order, first success winning. (1) The same cell, split at the
  first full-width colon: the stripped remainder is taken when it is not empty, not the
  text \<^verbatim>\<open>'nan'\<close> and not a header keyword. (2) Otherwise the cell at horizontal
  offset +1 in the same row, taken when it exists and its stripped text is not empty,
  neither \<^verbatim>\<open>'nan'\<close> nor \<^verbatim>\<open>'NaN'\<close> and not a header keyword; and only when
  that one is not taken, the cell at offset +2 under the same conditions. The value
  taken is stored after \<^verbatim>\<open>clean_value\<close>; when no layout succeeds nothing is
  stored. No cell of another row is consulted, so a value that stands only below its
  label is not found.
\<close>

theorem value_layouts_amended:
  "(is_match cv p \<and> \<not> better_field_match kws f (cleaned cv) (cleaned p) \<longrightarrow>
      kv_pattern_loop df kws kwset f i j cv (p # ps) result =
        (case same_cell_value cv kwset of
           Some v \<Rightarrow> AList.update f v result
         | None \<Rightarrow>
             (case right_value df i j kwset [1, 2] of
                Some v \<Rightarrow> AList.update f v result
              | None \<Rightarrow> result))) \<and>
   (same_cell_value cv kwset = Some v \<longleftrightarrow>
      (\<exists>label rest. cv = label @ 0xFF1A # rest \<and> 0xFF1A \<notin> set label \<and>
         acceptable_same_cell (strip rest) kwset \<and> v = clean_value (strip rest))) \<and>
   right_value df i j kwset [1, 2] =
     (if j + 1 < ncols df \<and> acceptable_right_cell (strip (py_str (iloc df i (j + 1)))) kwset
      then Some (clean_value (strip (py_str (iloc df i (j + 1)))))
      else if j + 2 < ncols df \<and> acceptable_right_cell (strip (py_str (iloc df i (j + 2)))) kwset
      then Some (clean_value (strip (py_str (iloc df i (j + 2)))))
      else None) \<and>
   (df ! i = df' ! i \<and> ncols df = ncols df' \<longrightarrow>
      kv_pattern_loop df kws kwset f i j cv ps result =
      kv_pattern_loop df' kws kwset f i j cv ps result)"
proof -
  have 1: "is_match cv p \<and> \<not> better_field_match kws f (cleaned cv) (cleaned p) \<longrightarrow>
      kv_pattern_loop df kws kwset f i j cv (p # ps) result =
        (case same_cell_value cv kwset of
           Some v \<Rightarrow> AList.update f v result
         | None \<Rightarrow>
             (case right_value df i j kwset [1, 2] of
                Some v \<Rightarrow> AList.update f v result
              | None \<Rightarrow> result))"
    by (simp del: right_value.simps)
  have 4: "df ! i = df' ! i \<and> ncols df = ncols df' \<longrightarrow>
      kv_pattern_loop df kws kwset f i j cv ps result =
      kv_pattern_loop df' kws kwset f i j cv ps result"
    using kv_pattern_loop_same_row by blast
  from 1 same_cell_value_iff right_value_priority 4 show ?thesis by (intro conjI)
qed

text \<open>
  The amended claim at concrete inputs. The label "product code" of \<open>below_df\<close> is
  accepted and binds nothing, whatever stands below it. The cell
  "product code: T05851" yields T05851 from the same cell. In \<open>offsets_df\<close> the unit
  value has acceptable texts at both offsets and the one at +1 is taken; the product
  code has a blank at +1 and is taken from +2.
\<close>

theorem value_layouts_amended_witness:
  "is_match product_code product_code \<and>
   \<not> better_field_match fund_keywords product_code (cleaned product_code) (cleaned product_code) \<and>
   kv_pattern_loop below_df fund_keywords (all_keywords fund_keywords) product_code 3 0
     product_code [product_code] [] = [] \<and>
   below_df ! 3 = below_df' ! 3 \<and> ncols below_df = ncols below_df' \<and>
   kv_pattern_loop below_df fund_keywords (all_keywords fund_keywords) product_code 3 0
     product_code [product_code] [] =
   kv_pattern_loop below_df' fund_keywords (all_keywords fund_keywords) product_code 3 0
     product_code [product_code] [] \<and>
   same_cell_value code_cell (all_keywords fund_keywords) = Some (asc ''T05851'') \<and>
   acceptable_right_cell (strip (py_str (iloc offsets_df 1 (0 + 1)))) (all_keywords fund_keywords) \<and>
   acceptable_right_cell (strip (py_str (iloc offsets_df 1 (0 + 2)))) (all_keywords fund_keywords) \<and>
   right_value offsets_df 1 0 (all_keywords fund_keywords) [1, 2] = Some (asc ''1.5'') \<and>
   \<not> acceptable_right_cell (strip (py_str (iloc offsets_df 0 (0 + 1)))) (all_keywords fund_keywords) \<and>
   right_value offsets_df 0 0 (all_keywords fund_keywords) [1, 2] = Some (asc ''T05851'')"
proof -
  let ?K = "all_keywords fund_keywords"
  have m: "is_match product_code product_code" by code_simp
  have b: "\<not> better_field_match fund_keywords product_code (cleaned product_code) (cleaned product_code)"
    by code_simp
  have s: "same_cell_value product_code ?K = None" by code_simp
  have r: "right_value below_df 3 0 ?K [1, 2] = None" by code_simp
  have row: "below_df ! 3 = below_df' ! 3" by code_simp
  have nc: "ncols below_df = ncols below_df'" by code_simp
  note a = value_layouts_amended[of product_code product_code fund_keywords product_code
      below_df ?K 3 0 "[]" "[]" _ below_df']
  from a m b have "kv_pattern_loop below_df fund_keywords ?K product_code 3 0
     product_code [product_code] [] =
        (case same_cell_value product_code ?K of
           Some v \<Rightarrow> AList.update product_code v []
         | None \<Rightarrow>
             (case right_value below_df 3 0 ?K [1, 2] of
                Some v \<Rightarrow> AList.update product_code v []
              | None \<Rightarrow> []))"
    by blast
  with s r have e1: "kv_pattern_loop below_df fund_keywords ?K product_code 3 0
     product_code [product_code] [] = []" by simp
  note a' = value_layouts_amended[of product_code product_code fund_keywords product_code
      below_df ?K 3 0 "[product_code]" "[]" _ below_df']
  from a' row nc have e2: "kv_pattern_loop below_df fund_keywords ?K product_code 3 0
     product_code [product_code] [] =
   kv_pattern_loop below_df' fund_keywords ?K product_code 3 0
     product_code [product_code] []"
    by blast
  have dec: "code_cell = product_code @ 0xFF1A # asc ''T05851''" by code_simp
  have ncl: "0xFF1A \<notin> set product_code" by code_simp
  have acc: "acceptable_same_cell (strip (asc ''T05851'')) ?K" by code_simp
  have cl: "asc ''T05851'' = clean_value (strip (asc ''T05851''))" by code_simp
  from value_layouts_amended[of code_cell _ _ _ _ ?K _ _ _ _ "asc ''T05851''"] dec ncl acc cl
  have sc: "same_cell_value code_cell ?K = Some (asc ''T05851'')" by blast
  have c1: "(0::nat) + 1 < ncols offsets_df" by code_simp
  have a1: "acceptable_right_cell (strip (py_str (iloc offsets_df 1 (0 + 1)))) ?K" by code_simp
  have a2: "acceptable_right_cell (strip (py_str (iloc offsets_df 1 (0 + 2)))) ?K" by code_simp
  have v1: "clean_value (strip (py_str (iloc offsets_df 1 (0 + 1)))) = asc ''1.5''" by code_simp
  from value_layouts_amended[of _ _ _ _ offsets_df ?K 1 0]
  have "right_value offsets_df 1 0 ?K [1, 2] =
     (if 0 + 1 < ncols offsets_df \<and> acceptable_right_cell (strip (py_str (iloc offsets_df 1 (0 + 1)))) ?K
      then Some (clean_value (strip (py_str (iloc offsets_df 1 (0 + 1)))))
      else if 0 + 2 < ncols offsets_df \<and> acceptable_right_cell (strip (py_str (iloc offsets_df 1 (0 + 2)))) ?K
      then Some (clean_value (strip (py_str (iloc offsets_df 1 (0 + 2)))))
      else None)" by blast
  then have rv1: "right_value offsets_df 1 0 ?K [1, 2] = Some (asc ''1.5'')"
    by (simp only: c1 a1 v1 simp_thms if_True)
  have c2: "(0::nat) + 2 < ncols offsets_df" by code_simp
  have n1: "\<not> acceptable_right_cell (strip (py_str (iloc offsets_df 0 (0 + 1)))) ?K" by code_simp
  have a3: "acceptable_right_cell (strip (py_str (iloc offsets_df 0 (0 + 2)))) ?K" by code_simp
  have v2: "clean_value (strip (py_str (iloc offsets_df 0 (0 + 2)))) = asc ''T05851''" by code_simp
  from value_layouts_amended[of _ _ _ _ offsets_df ?K 0 0]
  have "right_value offsets_df 0 0 ?K [1, 2] =
     (if 0 + 1 < ncols offsets_df \<and> acceptable_right_cell (strip (py_str (iloc offsets_df 0 (0 + 1)))) ?K
      then Some (clean_value (strip (py_str (iloc offsets_df 0 (0 + 1)))))
      else if 0 + 2 < ncols offsets_df \<and> acceptable_right_cell (strip (py_str (iloc offsets_df 0 (0 + 2)))) ?K
      then Some (clean_value (strip (py_str (iloc offsets_df 0 (0 + 2)))))
      else None)" by blast
  then have rv2: "right_value offsets_df 0 0 ?K [1, 2] = Some (asc ''T05851'')"
    using n1 by (simp only: c2 a3 v2 simp_thms if_True if_False)
  from m b e1 row nc e2 sc a1 a2 rv1 n1 rv2 show ?thesis by (intro conjI)
qed

text \<open>
  C9: in the key/value scan a cell text is a candidate match for an alias exactly when
  the two are equal after spaces and line breaks are removed, or the alias occurs in the
  cell text and the character before its (leftmost) occurrence, if there is one, is
  neither a letter nor a CJK ideograph. The cell "client name" (kehu mingcheng) is not a
  candidate match for the alias "name" (mingcheng).
\<close>

theorem candidate_match_rule:
  "(is_match cell_text alias \<longleftrightarrow> candidate_match cell_text alias) \<and>
   \<not> is_match client_name alias_name"
  using is_match_iff client_name_no_match by simp

text \<open>
  Both directions at concrete cells: "client name" against "name", and
  "product code: T05851" against "product code".
\<close>

theorem candidate_match_rule_witness:
  "\<not> candidate_match client_name alias_name \<and> candidate_match code_cell product_code"
proof -
  have n: "\<not> is_match client_name alias_name" by code_simp
  have y: "is_match code_cell product_code" by code_simp
  from candidate_match_rule[of client_name alias_name] n
  have 1: "\<not> candidate_match client_name alias_name" by blast
  from candidate_match_rule[of code_cell product_code] y
  have 2: "candidate_match code_cell product_code" by blast
  from 1 2 show ?thesis by (rule conjI)
qed

section \<open>Properties of the table path\<close>

subsection \<open>Header detection\<close>

lemma replace_cp_absent: "old \<notin> set s \<Longrightarrow> replace_cp old [] s = s"
  by (induction s) (auto simp: replace_cp_def)

lemma matched_field_count_card:
  assumes d: "distinct (map fst kws)"
    and nosp: "\<forall>(f, ps) \<in> set kws. \<forall>p \<in> set ps. 0x20 \<notin> set p"
  shows "matched_field_count kws cells = card (fields_in_row kws cells)"
proof -
  let ?Q = "\<lambda>(field_name :: ustring, patterns). list_ex (\<lambda>p. pattern_in_row p cells) patterns"
  have Q: "?Q (f, ps) \<longleftrightarrow> (\<exists>p \<in> set ps. \<exists>cell \<in> set cells. contains cell p)"
    if "(f, ps) \<in> set kws" for f ps
  proof -
    have "replace_cp 0x20 [] p = p" if "p \<in> set ps" for p
    proof -
      have "0x20 \<notin> set p" using nosp \<open>(f, ps) \<in> set kws\<close> that by fastforce
      then show ?thesis by (rule replace_cp_absent)
    qed
    then show ?thesis by (auto simp: pattern_in_row_def list_ex_iff)
  qed
  have "fields_in_row kws cells = set (map fst (filter ?Q kws))"
  proof (intro set_eqI iffI)
    fix f assume "f \<in> fields_in_row kws cells"
    then obtain ps p cell where
      a: "(f, ps) \<in> set kws" "p \<in> set ps" "cell \<in> set cells" "contains cell p"
      unfolding fields_in_row_def by blast
    then have "?Q (f, ps)" using Q[OF a(1)] by blast
    with a(1) have "(f, ps) \<in> set (filter ?Q kws)" by simp
    then show "f \<in> set (map fst (filter ?Q kws))" by force
  next
    fix f assume "f \<in> set (map fst (filter ?Q kws))"
    then obtain ps where b: "(f, ps) \<in> set kws" "?Q (f, ps)" by auto
    with Q[OF b(1)] show "f \<in> fields_in_row kws cells"
      unfolding fields_in_row_def by blast
  qed
  moreover have "distinct (map fst (filter ?Q kws))"
    using d by (rule distinct_map_filter)
  ultimately have "card (fields_in_row kws cells) = length (map fst (filter ?Q kws))"
    by (simp only: distinct_card)
  then show ?thesis by (simp add: matched_field_count_def)
qed

lemma find_upt_Some:
  "find P [0 ..< n] = Some h \<longleftrightarrow> h < n \<and> P h \<and> (\<forall>h' < h. \<not> P h')"
proof
  assume "find P [0 ..< n] = Some h"
  then obtain i where i: "i < length [0 ..< n]" "P ([0 ..< n] ! i)" "h = [0 ..< n] ! i"
    "\<forall>j < i. \<not> P ([0 ..< n] ! j)"
    unfolding find_Some_iff by blast
  then have "h = i" "i < n" by simp_all
  with i show "h < n \<and> P h \<and> (\<forall>h' < h. \<not> P h')" by auto
next
  assume a: "h < n \<and> P h \<and> (\<forall>h' < h. \<not> P h')"
  then have "h < length [0 ..< n] \<and> P ([0 ..< n] ! h) \<and> h = [0 ..< n] ! h \<and>
      (\<forall>j < h. \<not> P ([0 ..< n] ! j))" by auto
  then show "find P [0 ..< n] = Some h" unfolding find_Some_iff by blast
qed

lemma find_header_row_iff:
  assumes "distinct (map fst kws)"
    and "\<forall>(f, ps) \<in> set kws. \<forall>p \<in> set ps. 0x20 \<notin> set p"
  shows "find_header_row df kws = Some h \<longleftrightarrow>
         h < 5 \<and> h < length df \<and> header_qualifies kws (df ! h) \<and>
         (\<forall>h' < h. \<not> header_qualifies kws (df ! h'))"
  unfolding find_header_row_def find_upt_Some header_qualifies_def
    matched_field_count_card[OF assms]
  by auto

lemma table_none_falls_back:
  "extract_table_format df fund_keywords = None \<Longrightarrow>
   extract_fund_data_smart df =
     (case extract_keyvalue_format df fund_keywords of
        None \<Rightarrow> None
      | Some r \<Rightarrow> if is_valid_result r then Some [r] else None)"
  by (simp add: extract_fund_data_smart_def)

lemma fund_keywords_distinct: "distinct (map fst fund_keywords)"
  by code_simp

lemma fund_keywords_no_space:
  "list_all (\<lambda>(f, ps). list_all (\<lambda>p. 0x20 \<notin> set p) ps) fund_keywords"
  by code_simp

lemma title_no_header: "find_header_row title_df fund_keywords = None"
  by code_simp

lemma title_no_table: "extract_table_format title_df fund_keywords = None"
  by code_simp

lemma title_no_keyvalue: "extract_keyvalue_format title_df fund_keywords = None"
  by code_simp

lemma title_outcome: "extract_fund_data_smart title_df = None"
  by code_simp

subsection \<open>The loop over the data rows\<close>

lemma row_loop_rows:
  "row_loop columns kws rows results = Some rs \<Longrightarrow>
   map Some rs =
     map Some results @
     filter (\<lambda>r. case r of None \<Rightarrow> False | Some d \<Rightarrow> 3 \<le> length d)
       (map (\<lambda>row. field_loop columns row kws [])
          (filter (\<lambda>row. \<not> list_all blank_cell row) rows))"
proof (induction rows arbitrary: results)
  case Nil
  then show ?case by simp
next
  case (Cons row rows)
  show ?case
  proof (cases "list_all blank_cell row")
    case True
    with Cons show ?thesis by simp
  next
    case False
    with Cons.prems obtain d where d: "field_loop columns row kws [] = Some d"
      by (auto split: option.splits)
    from Cons.prems False d
    have "row_loop columns kws rows (if 3 \<le> length d then results @ [d] else results) = Some rs"
      by simp
    from Cons.IH[OF this] False d show ?thesis by simp
  qed
qed

lemma extract_table_format_rows:
  assumes "extract_table_format df kws = Some rs"
  shows "\<exists>h. find_header_row df kws = Some h \<and> h + 1 < length df \<and>
           map Some rs =
             filter (\<lambda>r. case r of None \<Rightarrow> False | Some d \<Rightarrow> 3 \<le> length d)
               (map (\<lambda>row. field_loop (cleaned_headers (df ! h)) row kws [])
                  (filter (\<lambda>row. \<not> list_all blank_cell row) (drop (h + 1) df)))"
proof -
  from assms obtain h where h: "find_header_row df kws = Some h"
    by (auto simp: extract_table_format_def split: option.splits)
  from assms h have lt: "h + 1 < length df"
    by (auto simp: extract_table_format_def Let_def split: if_splits)
  from assms h lt obtain results where
    r: "row_loop (cleaned_headers (df ! h)) kws (drop (h + 1) df) [] = Some results"
       "rs = results"
    by (auto simp: extract_table_format_def Let_def split: if_splits option.splits)
  from row_loop_rows[OF r(1)] r(2) h lt show ?thesis by auto
qed

lemma field_loop_distinct:
  "field_loop columns data_row kws result = Some r \<Longrightarrow> distinct (map fst result) \<Longrightarrow>
   distinct (map fst r)"
proof (induction kws arbitrary: result)
  case Nil
  then show ?case by simp
next
  case (Cons fp kws)
  obtain f ps where fp: "fp = (f, ps)" by (cases fp)
  show ?case
  proof (cases "pattern_loop columns data_row ps")
    case Raised
    with Cons.prems(1) fp show ?thesis by simp
  next
    case Missing
    with Cons.prems(1) fp have "field_loop columns data_row kws result = Some r" by simp
    from Cons.IH[OF this Cons.prems(2)] show ?thesis .
  next
    case (Found v)
    with Cons.prems(1) fp
    have "field_loop columns data_row kws (AList.update f v result) = Some r" by simp
    moreover have "distinct (map fst (AList.update f v result))"
      using Cons.prems(2) by (rule distinct_update)
    ultimately show ?thesis by (rule Cons.IH)
  qed
qed

lemma field_loop_keys:
  "field_loop columns data_row kws result = Some r \<Longrightarrow>
   fst ` set r \<subseteq> fst ` set result \<union> fst ` set kws"
proof (induction kws arbitrary: result)
  case Nil
  then show ?case by simp
next
  case (Cons fp kws)
  obtain f ps where fp: "fp = (f, ps)" by (cases fp)
  show ?case
  proof (cases "pattern_loop columns data_row ps")
    case Raised
    with Cons.prems(1) fp show ?thesis by simp
  next
    case Missing
    with Cons.prems(1) fp have "field_loop columns data_row kws result = Some r" by simp
    from Cons.IH[OF this] show ?thesis by auto
  next
    case (Found v)
    with Cons.prems(1) fp
    have "field_loop columns data_row kws (AList.update f v result) = Some r" by simp
    from Cons.IH[OF this] have "fst ` set r \<subseteq> fst ` set (AList.update f v result) \<union> fst ` set kws" .
    moreover have "fst ` set (AList.update f v result) = insert f (fst ` set result)"
      using dom_update[of f v result] by (simp add: dom_map_of_conv_image_fst)
    ultimately show ?thesis using fp by auto
  qed
qed

lemma extract_table_format_record:
  assumes "extract_table_format df kws = Some rs" and "d \<in> set rs"
  shows "3 \<le> length d \<and> distinct (map fst d) \<and> fst ` set d \<subseteq> fst ` set kws"
proof -
  from extract_table_format_rows[OF assms(1)] obtain h where
    m: "map Some rs =
         filter (\<lambda>r. case r of None \<Rightarrow> False | Some d \<Rightarrow> 3 \<le> length d)
           (map (\<lambda>row. field_loop (cleaned_headers (df ! h)) row kws [])
              (filter (\<lambda>row. \<not> list_all blank_cell row) (drop (h + 1) df)))"
    by blast
  from assms(2) have "Some d \<in> set (map Some rs)" by simp
  with m have "Some d \<in> set (filter (\<lambda>r. case r of None \<Rightarrow> False | Some d \<Rightarrow> 3 \<le> length d)
           (map (\<lambda>row. field_loop (cleaned_headers (df ! h)) row kws [])
              (filter (\<lambda>row. \<not> list_all blank_cell row) (drop (h + 1) df))))"
    by simp
  then obtain row where
    row: "field_loop (cleaned_headers (df ! h)) row kws [] = Some d" and len: "3 \<le> length d"
    by auto
  from field_loop_distinct[OF row] have "distinct (map fst d)" by simp
  moreover from field_loop_keys[OF row] have "fst ` set d \<subseteq> fst ` set kws" by simp
  ultimately show ?thesis using len by simp
qed

subsection \<open>Unambiguous header labels\<close>

lemma length_filter_zip_label:
  "length xs = length ys \<Longrightarrow>
   length (filter (\<lambda>(label, v). label = c) (zip xs ys)) = count_list xs c"
  by (induction xs ys rule: list_induct2) auto

lemma getitem_unique:
  assumes "length data_row = length columns" and "count_list columns col = 1"
  shows "\<exists>v. getitem columns data_row col = Some v"
proof -
  from assms have "length (filter (\<lambda>(label, v). label = col) (zip columns data_row)) = 1"
    by (simp add: length_filter_zip_label)
  then obtain e where "filter (\<lambda>(label, v). label = col) (zip columns data_row) = [e]"
    by (auto simp: length_Suc_conv)
  then show ?thesis by (cases e) (simp add: getitem_def)
qed

lemma col_loop_no_raise:
  assumes "length data_row = length columns"
    and "\<forall>col \<in> set cols.
           contains (replace_cp 0x20 [] (replace_cp 0xA [] col)) p \<or>
           contains (replace_cp 0x20 [] (replace_cp 0xA [] col)) (replace_cp 0x20 [] p)
           \<longrightarrow> count_list columns col = 1"
  shows "col_loop columns data_row p cols \<noteq> Raised"
  using assms(2)
proof (induction cols)
  case Nil
  show ?case by simp
next
  case (Cons col cols)
  then have ih: "col_loop columns data_row p cols \<noteq> Raised" by fastforce
  show ?case
  proof (cases "contains (replace_cp 0x20 [] (replace_cp 0xA [] col)) p \<or>
           contains (replace_cp 0x20 [] (replace_cp 0xA [] col)) (replace_cp 0x20 [] p)")
    case False
    with ih show ?thesis by (simp add: Let_def)
  next
    case True
    with Cons.prems have "count_list columns col = 1" by fastforce
    from getitem_unique[OF assms(1) this] obtain v where
      "getitem columns data_row col = Some v" by blast
    with True ih show ?thesis by (simp add: Let_def)
  qed
qed

lemma pattern_loop_no_raise:
  assumes "length data_row = length columns"
    and "\<forall>p \<in> set ps. \<forall>col \<in> set columns.
           contains (replace_cp 0x20 [] (replace_cp 0xA [] col)) p \<or>
           contains (replace_cp 0x20 [] (replace_cp 0xA [] col)) (replace_cp 0x20 [] p)
           \<longrightarrow> count_list columns col = 1"
  shows "pattern_loop columns data_row ps \<noteq> Raised"
  using assms(2)
proof (induction ps)
  case Nil
  show ?case by simp
next
  case (Cons p ps)
  then have ih: "pattern_loop columns data_row ps \<noteq> Raised" by simp
  from Cons.prems have "\<forall>col \<in> set columns.
           contains (replace_cp 0x20 [] (replace_cp 0xA [] col)) p \<or>
           contains (replace_cp 0x20 [] (replace_cp 0xA [] col)) (replace_cp 0x20 [] p)
           \<longrightarrow> count_list columns col = 1" by simp
  from col_loop_no_raise[OF assms(1) this]
  have "col_loop columns data_row p columns \<noteq> Raised" .
  with ih show ?case by (simp split: lookup.splits)
qed

lemma unambiguous_patterns:
  assumes "unambiguous_labels kws columns" and "(f, ps) \<in> set kws"
  shows "\<forall>p \<in> set ps. \<forall>col \<in> set columns.
           contains (replace_cp 0x20 [] (replace_cp 0xA [] col)) p \<or>
           contains (replace_cp 0x20 [] (replace_cp 0xA [] col)) (replace_cp 0x20 [] p)
           \<longrightarrow> count_list columns col = 1"
proof (intro ballI impI)
  fix p col
  assume p: "p \<in> set ps" and col: "col \<in> set columns"
    and m: "contains (replace_cp 0x20 [] (replace_cp 0xA [] col)) p \<or>
           contains (replace_cp 0x20 [] (replace_cp 0xA [] col)) (replace_cp 0x20 [] p)"
  from assms(2) p m have "label_matched kws col" unfolding label_matched_def by blast
  with assms(1) col show "count_list columns col = 1" unfolding unambiguous_labels_def by blast
qed

lemma field_loop_no_raise:
  assumes "length data_row = length columns" and "unambiguous_labels kws' columns"
  shows "set kws \<subseteq> set kws' \<Longrightarrow> \<exists>r. field_loop columns data_row kws result = Some r"
proof (induction kws arbitrary: result)
  case Nil
  show ?case by simp
next
  case (Cons fp kws)
  obtain f ps where fp: "fp = (f, ps)" by (cases fp)
  from Cons.prems fp have mem: "(f, ps) \<in> set kws'" and sub: "set kws \<subseteq> set kws'" by auto
  from pattern_loop_no_raise[OF assms(1) unambiguous_patterns[OF assms(2) mem]]
  have nr: "pattern_loop columns data_row ps \<noteq> Raised" .
  show ?case
  proof (cases "pattern_loop columns data_row ps")
    case Raised
    with nr show ?thesis by simp
  next
    case Missing
    with Cons.IH[OF sub, of result] fp show ?thesis by simp
  next
    case (Found v)
    with Cons.IH[OF sub, of "AList.update f v result"] fp show ?thesis by simp
  qed
qed

lemma row_loop_no_raise:
  assumes "unambiguous_labels kws columns"
  shows "\<forall>row \<in> set rows. length row = length columns \<Longrightarrow>
         \<exists>rs. row_loop columns kws rows results = Some rs"
proof (induction rows arbitrary: results)
  case Nil
  show ?case by simp
next
  case (Cons row rows)
  then have len: "length row = length columns"
    and rest: "\<forall>row \<in> set rows. length row = length columns" by simp_all
  from field_loop_no_raise[OF len assms, of kws "[]"] obtain d where
    d: "field_loop columns row kws [] = Some d" by auto
  show ?case
  proof (cases "list_all blank_cell row")
    case True
    with Cons.IH[OF rest, of results] show ?thesis by simp
  next
    case False
    with d Cons.IH[OF rest, of "if 3 \<le> length d then results @ [d] else results"]
    show ?thesis by simp
  qed
qed

lemma extract_table_format_unambiguous:
  assumes h: "find_header_row df kws = Some h" and lt: "h + 1 < length df"
    and un: "unambiguous_labels kws (cleaned_headers (df ! h))"
    and len: "\<forall>row \<in> set (drop (h + 1) df). length row = length (df ! h)"
  shows "\<exists>rs. map Some rs =
            filter (\<lambda>r. case r of None \<Rightarrow> False | Some d \<Rightarrow> 3 \<le> length d)
              (map (\<lambda>row. field_loop (cleaned_headers (df ! h)) row kws [])
                 (filter (\<lambda>row. \<not> list_all blank_cell row) (drop (h + 1) df))) \<and>
          (\<forall>row \<in> set (drop (h + 1) df).
             \<exists>d. field_loop (cleaned_headers (df ! h)) row kws [] = Some d) \<and>
          extract_table_format df kws = (if rs = [] then None else Some rs)"
proof -
  let ?cols = "cleaned_headers (df ! h)"
  have lc: "length ?cols = length (df ! h)" by (simp add: cleaned_headers_def)
  from len lc have len': "\<forall>row \<in> set (drop (h + 1) df). length row = length ?cols" by simp
  from row_loop_no_raise[OF un len', of "[]"] obtain rs where
    rs: "row_loop ?cols kws (drop (h + 1) df) [] = Some rs" by blast
  from row_loop_rows[OF rs]
  have 1: "map Some rs =
            filter (\<lambda>r. case r of None \<Rightarrow> False | Some d \<Rightarrow> 3 \<le> length d)
              (map (\<lambda>row. field_loop ?cols row kws [])
                 (filter (\<lambda>row. \<not> list_all blank_cell row) (drop (h + 1) df)))" by simp
  have 2: "\<forall>row \<in> set (drop (h + 1) df). \<exists>d. field_loop ?cols row kws [] = Some d"
  proof
    fix row assume "row \<in> set (drop (h + 1) df)"
    with len' have "length row = length ?cols" by blast
    from field_loop_no_raise[OF this un, of kws "[]"]
    show "\<exists>d. field_loop ?cols row kws [] = Some d" by auto
  qed
  have 3: "extract_table_format df kws = (if rs = [] then None else Some rs)"
    using h lt rs by (simp add: extract_table_format_def Let_def)
  from 1 2 3 show ?thesis by blast
qed

subsection \<open>The fields a row carries\<close>

lemma col_loop_Missing:
  "col_loop columns data_row p cols = Missing \<Longrightarrow>
   \<not> (\<exists>col \<in> set cols.
        (contains (replace_cp 0x20 [] (replace_cp 0xA [] col)) p \<or>
         contains (replace_cp 0x20 [] (replace_cp 0xA [] col)) (replace_cp 0x20 [] p)) \<and>
        (\<exists>v. getitem columns data_row col = Some v \<and> present v))"
  by (induction cols) (auto simp: Let_def present_def split: if_splits option.splits)

lemma col_loop_Found_present:
  "col_loop columns data_row p cols = Found x \<Longrightarrow>
   \<exists>col \<in> set cols.
        (contains (replace_cp 0x20 [] (replace_cp 0xA [] col)) p \<or>
         contains (replace_cp 0x20 [] (replace_cp 0xA [] col)) (replace_cp 0x20 [] p)) \<and>
        (\<exists>v. getitem columns data_row col = Some v \<and> present v)"
  by (induction cols) (auto simp: Let_def present_def split: if_splits option.splits)

lemma pattern_loop_Missing:
  "pattern_loop columns data_row ps = Missing \<Longrightarrow> \<not> carries columns data_row ps"
proof (induction ps)
  case Nil
  show ?case by (simp add: carries_def)
next
  case (Cons p ps)
  from Cons.prems have m: "col_loop columns data_row p columns = Missing"
    and r: "pattern_loop columns data_row ps = Missing"
    by (auto split: lookup.splits)
  from Cons.IH[OF r] col_loop_Missing[OF m] show ?case
    unfolding carries_def by auto
qed

lemma pattern_loop_Found_carries:
  "pattern_loop columns data_row ps = Found x \<Longrightarrow> carries columns data_row ps"
proof (induction ps)
  case Nil
  then show ?case by simp
next
  case (Cons p ps)
  show ?case
  proof (cases "col_loop columns data_row p columns")
    case Raised
    with Cons.prems show ?thesis by simp
  next
    case (Found y)
    from col_loop_Found_present[OF Found] show ?thesis unfolding carries_def by auto
  next
    case Missing
    with Cons.prems have "pattern_loop columns data_row ps = Found x" by simp
    from Cons.IH[OF this] show ?thesis unfolding carries_def by auto
  qed
qed

lemma keys_update: "fst ` set (AList.update k v al) = insert k (fst ` set al)"
  using dom_update[of k v al] by (simp add: dom_map_of_conv_image_fst)

lemma field_loop_carried:
  "field_loop columns data_row kws result = Some r \<Longrightarrow>
   fst ` set r = fst ` set result \<union> carried_fields kws columns data_row"
proof (induction kws arbitrary: result)
  case Nil
  then show ?case by (simp add: carried_fields_def)
next
  case (Cons fp kws)
  obtain f ps where fp: "fp = (f, ps)" by (cases fp)
  show ?case
  proof (cases "pattern_loop columns data_row ps")
    case Raised
    with Cons.prems fp show ?thesis by simp
  next
    case Missing
    with Cons.prems fp have "field_loop columns data_row kws result = Some r" by simp
    from Cons.IH[OF this]
    have "fst ` set r = fst ` set result \<union> carried_fields kws columns data_row" .
    moreover have "carried_fields (fp # kws) columns data_row = carried_fields kws columns data_row"
      using pattern_loop_Missing[OF Missing] fp unfolding carried_fields_def by auto
    ultimately show ?thesis by simp
  next
    case (Found v)
    with Cons.prems fp
    have "field_loop columns data_row kws (AList.update f v result) = Some r" by simp
    from Cons.IH[OF this]
    have "fst ` set r = insert f (fst ` set result) \<union> carried_fields kws columns data_row"
      by (simp add: keys_update)
    moreover have "carried_fields (fp # kws) columns data_row =
        insert f (carried_fields kws columns data_row)"
      using pattern_loop_Found_carries[OF Found] fp unfolding carried_fields_def by auto
    ultimately show ?thesis by auto
  qed
qed

lemma field_loop_record:
  assumes "field_loop columns data_row kws [] = Some d"
  shows "distinct (map fst d) \<and> fst ` set d = carried_fields kws columns data_row \<and>
         length d = card (carried_fields kws columns data_row)"
proof -
  from field_loop_distinct[OF assms] have dist: "distinct (map fst d)" by simp
  from field_loop_carried[OF assms]
  have keys: "fst ` set d = carried_fields kws columns data_row" by simp
  from dist have "card (set (map fst d)) = length (map fst d)" by (rule distinct_card)
  with keys have "length d = card (carried_fields kws columns data_row)" by simp
  with dist keys show ?thesis by simp
qed

lemma duplicate_example:
  "find_header_row duplicate_df fund_keywords = Some 0 \<and>
   \<not> list_all blank_cell (duplicate_df ! 1) \<and>
   extract_table_format (map (take 3) duplicate_df) fund_keywords =
     Some [[(product_name, asc ''Test Fund''), (product_code, asc ''ABC123''),
            (unit_nav, asc ''1.5000'')]] \<and>
   extract_table_format duplicate_df fund_keywords = None \<and>
   extract_fund_data_smart duplicate_df = None"
  by code_simp

lemma table_example_records:
  "extract_fund_data_smart table_df =
     Some [[(product_name, asc ''Test Fund''), (product_code, asc ''ABC123''),
            (unit_nav, asc ''1.5000''), (accumulated_nav, asc ''1.5000''),
            (nav_date, asc ''20250121'')],
           [(product_name, asc ''Test Fund 2''), (product_code, asc ''ABC124''),
            (unit_nav, asc ''2.0000''), (accumulated_nav, asc ''2.0000''),
            (nav_date, asc ''20250122'')]]"
  by code_simp

lemma table_example_normalized:
  "extract_and_normalize table_df =
     Some [\<lparr>n_product_name = Some (asc ''Test Fund''), n_product_code = Some (asc ''ABC123''),
            n_client_name = None, n_participating_shares = PNone,
            n_nav_date = Some (asc ''20250121''), n_unit_nav = PFloat (Dec False 15000 (- 4)),
            n_accumulated_nav = PFloat (Dec False 15000 (- 4)), n_accrual_frequency = None,
            n_virtual_fee = PNone, n_withdrawal_nav = PNone, n_post_accrual_nav = PNone\<rparr>,
           \<lparr>n_product_name = Some (asc ''Test Fund 2''), n_product_code = Some (asc ''ABC124''),
            n_client_name = None, n_participating_shares = PNone,
            n_nav_date = Some (asc ''20250122''), n_unit_nav = PFloat (Dec False 20000 (- 4)),
            n_accumulated_nav = PFloat (Dec False 20000 (- 4)), n_accrual_frequency = None,
            n_virtual_fee = PNone, n_withdrawal_nav = PNone, n_post_accrual_nav = PNone\<rparr>]"
  by code_simp

section \<open>The claims about the table path\<close>

text \<open>
  C5: header detection scans only the first five rows (fewer if the grid is shorter) and
  returns the first row in which, after line breaks and spaces are removed from each
  cell, at least two distinct fields of the catalog have an alias occurring in some cell.
  The catalog is a dictionary (its keys are distinct) and, as in the repository's
  catalog, no alias contains a blank. The one-cell grid with the caption
  "net asset value report" has no header row, the table path returns nothing for it, and
  the extraction is then the key/value scan: whenever the table path returns nothing, the
  result is that of the key/value scan, validated.
\<close>

theorem header_detection:
  "(distinct (map fst kws) \<and> (\<forall>(f, ps) \<in> set kws. \<forall>p \<in> set ps. 0x20 \<notin> set p) \<longrightarrow>
      (find_header_row df kws = Some h \<longleftrightarrow>
         h < 5 \<and> h < length df \<and> header_qualifies kws (df ! h) \<and>
         (\<forall>h' < h. \<not> header_qualifies kws (df ! h')))) \<and>
   find_header_row title_df fund_keywords = None \<and>
   extract_table_format title_df fund_keywords = None \<and>
   (extract_table_format df fund_keywords = None \<longrightarrow>
      extract_fund_data_smart df =
        (case extract_keyvalue_format df fund_keywords of
           None \<Rightarrow> None
         | Some r \<Rightarrow> if is_valid_result r then Some [r] else None)) \<and>
   extract_fund_data_smart title_df = None"
proof -
  have 1: "distinct (map fst kws) \<and> (\<forall>(f, ps) \<in> set kws. \<forall>p \<in> set ps. 0x20 \<notin> set p) \<longrightarrow>
      (find_header_row df kws = Some h \<longleftrightarrow>
         h < 5 \<and> h < length df \<and> header_qualifies kws (df ! h) \<and>
         (\<forall>h' < h. \<not> header_qualifies kws (df ! h')))"
    using find_header_row_iff by blast
  have 2: "extract_table_format df fund_keywords = None \<longrightarrow>
      extract_fund_data_smart df =
        (case extract_keyvalue_format df fund_keywords of
           None \<Rightarrow> None
         | Some r \<Rightarrow> if is_valid_result r then Some [r] else None)"
    using table_none_falls_back by blast
  from 1 title_no_header title_no_table 2 title_outcome show ?thesis by (intro conjI)
qed

text \<open>
  The repository's catalog satisfies the two conditions; by the theorem the caption row
  does not qualify as a header and the first row of the example table does.
\<close>

theorem header_detection_witness:
  "distinct (map fst fund_keywords) \<and>
   list_all (\<lambda>(f, ps). list_all (\<lambda>p. 0x20 \<notin> set p) ps) fund_keywords \<and>
   \<not> header_qualifies fund_keywords (title_df ! 0) \<and>
   header_qualifies fund_keywords (table_df ! 0) \<and>
   extract_table_format title_df fund_keywords = None \<and>
   extract_fund_data_smart title_df =
     (case extract_keyvalue_format title_df fund_keywords of
        None \<Rightarrow> None
      | Some r \<Rightarrow> if is_valid_result r then Some [r] else None)"
proof -
  have d: "distinct (map fst fund_keywords)" by (rule fund_keywords_distinct)
  have n: "list_all (\<lambda>(f, ps). list_all (\<lambda>p. 0x20 \<notin> set p) ps) fund_keywords"
    by (rule fund_keywords_no_space)
  then have n': "\<forall>(f, ps) \<in> set fund_keywords. \<forall>p \<in> set ps. 0x20 \<notin> set p"
    by (auto simp: list_all_iff)
  have t: "find_header_row title_df fund_keywords = None" by (rule title_no_header)
  have e: "extract_table_format title_df fund_keywords = None" by (rule title_no_table)
  have g: "find_header_row table_df fund_keywords = Some 0" by code_simp
  have l: "length title_df = 1" by code_simp
  from header_detection[of fund_keywords title_df 0] d n' t l
  have 1: "\<not> header_qualifies fund_keywords (title_df ! 0)" by simp
  from header_detection[of fund_keywords table_df 0] d n' g
  have 2: "header_qualifies fund_keywords (table_df ! 0)" by blast
  from header_detection[of _ title_df] e
  have 3: "extract_fund_data_smart title_df =
     (case extract_keyvalue_format title_df fund_keywords of
        None \<Rightarrow> None
      | Some r \<Rightarrow> if is_valid_result r then Some [r] else None)" by blast
  from d n 1 2 e 3 show ?thesis by (intro conjI)
qed

text \<open>
  C6, as stated, fails in its general part: the table path does not emit a record for
  every non-blank data row that carries three core fields. In \<open>duplicate_df\<close> two
  columns bear the label "unit net value". Its header row is found and its data row is
  not blank and carries a fund name, a fund code and a unit value (without the fourth
  column the table path returns the record with these three fields); yet the table path
  returns nothing for it, and so does the whole extraction.
\<close>

theorem table_duplicate_label_counterexample:
  "find_header_row duplicate_df fund_keywords = Some 0 \<and>
   \<not> list_all blank_cell (duplicate_df ! 1) \<and>
   extract_table_format (map (take 3) duplicate_df) fund_keywords =
     Some [[(product_name, asc ''Test Fund''), (product_code, asc ''ABC123''),
            (unit_nav, asc ''1.5000'')]] \<and>
   extract_table_format duplicate_df fund_keywords = None \<and>
   extract_fund_data_smart duplicate_df = None"
  by (rule duplicate_example)

text \<open>
  C6, amended: for the table of the specification the extraction returns exactly two
  records, in row order, with the values of the rows (as texts from
  \<^verbatim>\<open>extract_fund_data_smart\<close>, normalized from \<^verbatim>\<open>extract_and_normalize\<close>).
  In general, for a grid with a header row and at least one row after it, in which every
  header label that an alias matches is borne by exactly one column, every data row has a
  record, and the table path returns, in the order of the rows after the header, the
  record of each row that is not blank throughout and whose record has at least three
  fields (and returns nothing when there is no such row). The record of a row has one
  entry for each field of the catalog that the row carries, so its length is the number
  of fields carried. Whenever the table path returns records, they are these; every returned record has at least three entries,
  with distinct keys that are fields of the catalog.
\<close>

theorem table_rows_in_order_amended:
  "(find_header_row df kws = Some h \<and> h + 1 < length df \<and>
    unambiguous_labels kws (cleaned_headers (df ! h)) \<and>
    (\<forall>row \<in> set (drop (h + 1) df). length row = length (df ! h)) \<longrightarrow>
      (\<exists>rs. map Some rs =
            filter (\<lambda>r. case r of None \<Rightarrow> False | Some d \<Rightarrow> 3 \<le> length d)
              (map (\<lambda>row. field_loop (cleaned_headers (df ! h)) row kws [])
                 (filter (\<lambda>row. \<not> list_all blank_cell row) (drop (h + 1) df))) \<and>
          (\<forall>row \<in> set (drop (h + 1) df).
             \<exists>d. field_loop (cleaned_headers (df ! h)) row kws [] = Some d) \<and>
          extract_table_format df kws = (if rs = [] then None else Some rs))) \<and>
   (extract_table_format df kws = Some rs \<longrightarrow>
      (\<exists>h. find_header_row df kws = Some h \<and> h + 1 < length df \<and>
         map Some rs =
           filter (\<lambda>r. case r of None \<Rightarrow> False | Some d \<Rightarrow> 3 \<le> length d)
             (map (\<lambda>row. field_loop (cleaned_headers (df ! h)) row kws [])
                (filter (\<lambda>row. \<not> list_all blank_cell row) (drop (h + 1) df))))) \<and>
   (extract_table_format df kws = Some rs \<and> d \<in> set rs \<longrightarrow>
      3 \<le> length d \<and> distinct (map fst d) \<and> fst ` set d \<subseteq> fst ` set kws) \<and>
   (field_loop columns data_row kws [] = Some e \<longrightarrow>
      distinct (map fst e) \<and> fst ` set e = carried_fields kws columns data_row \<and>
      length e = card (carried_fields kws columns data_row)) \<and>
   extract_fund_data_smart table_df =
     Some [[(product_name, asc ''Test Fund''), (product_code, asc ''ABC123''),
            (unit_nav, asc ''1.5000''), (accumulated_nav, asc ''1.5000''),
            (nav_date, asc ''20250121'')],
           [(product_name, asc ''Test Fund 2''), (product_code, asc ''ABC124''),
            (unit_nav, asc ''2.0000''), (accumulated_nav, asc ''2.0000''),
            (nav_date, asc ''20250122'')]] \<and>
   extract_and_normalize table_df =
     Some [\<lparr>n_product_name = Some (asc ''Test Fund''), n_product_code = Some (asc ''ABC123''),
            n_client_name = None, n_participating_shares = PNone,
            n_nav_date = Some (asc ''20250121''), n_unit_nav = PFloat (Dec False 15000 (- 4)),
            n_accumulated_nav = PFloat (Dec False 15000 (- 4)), n_accrual_frequency = None,
            n_virtual_fee = PNone, n_withdrawal_nav = PNone, n_post_accrual_nav = PNone\<rparr>,
           \<lparr>n_product_name = Some (asc ''Test Fund 2''), n_product_code = Some (asc ''ABC124''),
            n_client_name = None, n_participating_shares = PNone,
            n_nav_date = Some (asc ''20250122''), n_unit_nav = PFloat (Dec False 20000 (- 4)),
            n_accumulated_nav = PFloat (Dec False 20000 (- 4)), n_accrual_frequency = None,
            n_virtual_fee = PNone, n_withdrawal_nav = PNone, n_post_accrual_nav = PNone\<rparr>]"
proof -
  have 0: "find_header_row df kws = Some h \<and> h + 1 < length df \<and>
    unambiguous_labels kws (cleaned_headers (df ! h)) \<and>
    (\<forall>row \<in> set (drop (h + 1) df). length row = length (df ! h)) \<longrightarrow>
      (\<exists>rs. map Some rs =
            filter (\<lambda>r. case r of None \<Rightarrow> False | Some d \<Rightarrow> 3 \<le> length d)
              (map (\<lambda>row. field_loop (cleaned_headers (df ! h)) row kws [])
                 (filter (\<lambda>row. \<not> list_all blank_cell row) (drop (h + 1) df))) \<and>
          (\<forall>row \<in> set (drop (h + 1) df).
             \<exists>d. field_loop (cleaned_headers (df ! h)) row kws [] = Some d) \<and>
          extract_table_format df kws = (if rs = [] then None else Some rs))"
    using extract_table_format_unambiguous by blast
  have 1: "extract_table_format df kws = Some rs \<longrightarrow>
      (\<exists>h. find_header_row df kws = Some h \<and> h + 1 < length df \<and>
         map Some rs =
           filter (\<lambda>r. case r of None \<Rightarrow> False | Some d \<Rightarrow> 3 \<le> length d)
             (map (\<lambda>row. field_loop (cleaned_headers (df ! h)) row kws [])
                (filter (\<lambda>row. \<not> list_all blank_cell row) (drop (h + 1) df))))"
    using extract_table_format_rows by blast
  have 2: "extract_table_format df kws = Some rs \<and> d \<in> set rs \<longrightarrow>
      3 \<le> length d \<and> distinct (map fst d) \<and> fst ` set d \<subseteq> fst ` set kws"
    using extract_table_format_record by blast
  have 3: "field_loop columns data_row kws [] = Some e \<longrightarrow>
      distinct (map fst e) \<and> fst ` set e = carried_fields kws columns data_row \<and>
      length e = card (carried_fields kws columns data_row)"
    using field_loop_record by blast
  from 0 1 2 3 table_example_records table_example_normalized show ?thesis by (intro conjI)
qed

text \<open>
  The amended claim at a table whose second data row lacks the product code. Its labels
  are unambiguous and its rows have the length of the header, so by the theorem the
  table path returns what the rows give: the records of both rows, in row order, the
  second with three fields.
\<close>

theorem table_rows_in_order_amended_witness:
  "find_header_row partial_df fund_keywords = Some 0 \<and> 0 + 1 < length partial_df \<and>
   unambiguous_labels fund_keywords (cleaned_headers (partial_df ! 0)) \<and>
   list_all (\<lambda>row. length row = length (partial_df ! 0)) (drop (0 + 1) partial_df) \<and>
   (\<exists>rs. map Some rs =
       filter (\<lambda>r. case r of None \<Rightarrow> False | Some d \<Rightarrow> 3 \<le> length d)
         (map (\<lambda>row. field_loop (cleaned_headers (partial_df ! 0)) row fund_keywords [])
            (filter (\<lambda>row. \<not> list_all blank_cell row) (drop (0 + 1) partial_df))) \<and>
       extract_table_format partial_df fund_keywords = (if rs = [] then None else Some rs)) \<and>
   extract_table_format partial_df fund_keywords =
     Some [[(product_name, asc ''Test Fund''), (product_code, asc ''ABC123''),
            (unit_nav, asc ''1.5000''), (nav_date, asc ''20250121'')],
           [(product_name, asc ''Test Fund 2''), (unit_nav, asc ''2.0000''),
            (nav_date, asc ''20250122'')]]"
proof -
  have h: "find_header_row partial_df fund_keywords = Some 0" by code_simp
  have lt: "(0::nat) + 1 < length partial_df" by code_simp
  have cols: "cleaned_headers (partial_df ! 0) =
      [[0x57FA, 0x91D1, 0x4EE3, 0x7801], [0x57FA, 0x91D1, 0x540D, 0x79F0],
       [0x51C0, 0x503C, 0x65E5, 0x671F], [0x5355, 0x4F4D, 0x51C0, 0x503C]]" by code_simp
  have un: "unambiguous_labels fund_keywords (cleaned_headers (partial_df ! 0))"
    unfolding unambiguous_labels_def cols by simp
  have len: "list_all (\<lambda>row. length row = length (partial_df ! 0)) (drop (0 + 1) partial_df)"
    by code_simp
  then have len': "\<forall>row \<in> set (drop (0 + 1) partial_df). length row = length (partial_df ! 0)"
    by (simp only: list_all_iff)
  from table_rows_in_order_amended[of partial_df fund_keywords 0] h lt un len'
  have "\<exists>rs. map Some rs =
       filter (\<lambda>r. case r of None \<Rightarrow> False | Some d \<Rightarrow> 3 \<le> length d)
         (map (\<lambda>row. field_loop (cleaned_headers (partial_df ! 0)) row fund_keywords [])
            (filter (\<lambda>row. \<not> list_all blank_cell row) (drop (0 + 1) partial_df))) \<and>
       (\<forall>row \<in> set (drop (0 + 1) partial_df).
          \<exists>d. field_loop (cleaned_headers (partial_df ! 0)) row fund_keywords [] = Some d) \<and>
       extract_table_format partial_df fund_keywords = (if rs = [] then None else Some rs)"
    by blast
  then have ex: "\<exists>rs. map Some rs =
       filter (\<lambda>r. case r of None \<Rightarrow> False | Some d \<Rightarrow> 3 \<le> length d)
         (map (\<lambda>row. field_loop (cleaned_headers (partial_df ! 0)) row fund_keywords [])
            (filter (\<lambda>row. \<not> list_all blank_cell row) (drop (0 + 1) partial_df))) \<and>
       extract_table_format partial_df fund_keywords = (if rs = [] then None else Some rs)"
    by blast
  have e: "extract_table_format partial_df fund_keywords =
     Some [[(product_name, asc ''Test Fund''), (product_code, asc ''ABC123''),
            (unit_nav, asc ''1.5000''), (nav_date, asc ''20250121'')],
           [(product_name, asc ''Test Fund 2''), (unit_nav, asc ''2.0000''),
            (nav_date, asc ''20250122'')]]" by code_simp
  from h lt un len ex e show ?thesis by (intro conjI)
qed

section \<open>Properties of the records\<close>

subsection \<open>Cleaned values are not blank unless empty\<close>

lemma strip_Nil_iff: "strip s = [] \<longleftrightarrow> (\<forall>c \<in> set s. isspace_cp c)"
proof -
  have "strip s = [] \<longleftrightarrow> dropWhile isspace_cp (rev (dropWhile isspace_cp s)) = []"
    by (simp add: strip_def)
  also have "\<dots> \<longleftrightarrow> (\<forall>c \<in> set (dropWhile isspace_cp s). isspace_cp c)"
    by simp
  also have "\<dots> \<longleftrightarrow> (\<forall>c \<in> set s. isspace_cp c)"
  proof
    assume a: "\<forall>c \<in> set (dropWhile isspace_cp s). isspace_cp c"
    show "\<forall>c \<in> set s. isspace_cp c"
    proof
      fix c assume "c \<in> set s"
      show "isspace_cp c"
      proof (rule ccontr)
        assume "\<not> isspace_cp c"
        with \<open>c \<in> set s\<close> have "c \<in> set (dropWhile isspace_cp s)" by (rule in_dropWhile)
        with a \<open>\<not> isspace_cp c\<close> show False by blast
      qed
    qed
  next
    assume "\<forall>c \<in> set s. isspace_cp c"
    then show "\<forall>c \<in> set (dropWhile isspace_cp s). isspace_cp c"
      by (meson set_dropWhileD)
  qed
  finally show ?thesis .
qed

lemma strip_head: "strip s \<noteq> [] \<Longrightarrow> \<not> isspace_cp (hd (strip s))"
proof -
  assume ne: "strip s \<noteq> []"
  let ?y = "dropWhile isspace_cp s"
  have "dropWhile isspace_cp (rev ?y) = drop (length (takeWhile isspace_cp (rev ?y))) (rev ?y)"
    by (rule dropWhile_eq_drop)
  then have st: "strip s = take (length ?y - length (takeWhile isspace_cp (rev ?y))) ?y"
    by (simp add: strip_def rev_drop)
  with ne have y: "?y \<noteq> []" by auto
  from st ne have "hd (strip s) = hd ?y" by (metis hd_take take_eq_Nil gr0I)
  moreover have "\<not> isspace_cp (hd ?y)" using y by (rule hd_dropWhile)
  ultimately show ?thesis by simp
qed

lemma clean_value_not_blank: "clean_value x \<noteq> [] \<Longrightarrow> \<not> blank (clean_value x)"
proof -
  assume ne: "clean_value x \<noteq> []"
  let ?w = "strip x"
  have cv: "clean_value x = ?w \<or> clean_value x = takeWhile (\<lambda>c. c \<noteq> 0x5F) ?w"
    by (simp add: clean_value_def Let_def split_first_def)
  with ne have w: "?w \<noteq> []" by auto
  have "hd (clean_value x) = hd ?w"
  proof -
    from cv show ?thesis
    proof
      assume "clean_value x = ?w" then show ?thesis by simp
    next
      assume t: "clean_value x = takeWhile (\<lambda>c. c \<noteq> 0x5F) ?w"
      with ne w show ?thesis by (cases ?w) (auto split: if_splits)
    qed
  qed
  with strip_head[OF w] have "\<not> isspace_cp (hd (clean_value x))" by simp
  moreover have "hd (clean_value x) \<in> set (clean_value x)" using ne by simp
  ultimately show ?thesis unfolding blank_def strip_Nil_iff by blast
qed

subsection \<open>Every entry of a record is a catalog field with a cleaned value\<close>

lemma set_update_subset: "set (AList.update k v al) \<subseteq> insert (k, v) (set al)"
  by (induction al) auto

lemma entries_ok_update:
  "entries_ok K d \<Longrightarrow> k \<in> K \<Longrightarrow> entries_ok K (AList.update k (clean_value x) d)"
  using set_update_subset[of k "clean_value x" d] unfolding entries_ok_def by blast

lemma entries_ok_Nil: "entries_ok K []"
  by (simp add: entries_ok_def)

lemma col_loop_Found:
  "col_loop columns data_row pattern cols = Found v \<Longrightarrow> \<exists>x. v = clean_value x"
  by (induction cols) (auto simp: Let_def split: if_splits option.splits)

lemma pattern_loop_Found:
  "pattern_loop columns data_row patterns = Found v \<Longrightarrow> \<exists>x. v = clean_value x"
  by (induction patterns) (auto split: lookup.splits dest: col_loop_Found)

lemma field_loop_entries:
  "field_loop columns data_row kws result = Some r \<Longrightarrow> entries_ok K result \<Longrightarrow>
   fst ` set kws \<subseteq> K \<Longrightarrow> entries_ok K r"
proof (induction kws arbitrary: result)
  case Nil
  then show ?case by simp
next
  case (Cons fp kws)
  obtain f ps where fp: "fp = (f, ps)" by (cases fp)
  from Cons.prems(3) fp have f: "f \<in> K" and sub: "fst ` set kws \<subseteq> K" by auto
  show ?case
  proof (cases "pattern_loop columns data_row ps")
    case Raised
    with Cons.prems(1) fp show ?thesis by simp
  next
    case Missing
    with Cons.prems(1) fp have "field_loop columns data_row kws result = Some r" by simp
    from Cons.IH[OF this Cons.prems(2) sub] show ?thesis .
  next
    case (Found v)
    from pattern_loop_Found[OF Found] obtain x where x: "v = clean_value x" by blast
    from Cons.prems(1) fp Found
    have "field_loop columns data_row kws (AList.update f v result) = Some r" by simp
    moreover have "entries_ok K (AList.update f v result)"
      unfolding x using Cons.prems(2) f by (rule entries_ok_update)
    ultimately show ?thesis using sub by (rule Cons.IH)
  qed
qed

lemma row_loop_entries:
  "row_loop columns kws rows results = Some rs \<Longrightarrow> \<forall>d \<in> set results. entries_ok K d \<Longrightarrow>
   fst ` set kws \<subseteq> K \<Longrightarrow> \<forall>d \<in> set rs. entries_ok K d"
proof (induction rows arbitrary: results)
  case Nil
  then show ?case by simp
next
  case (Cons row rows)
  show ?case
  proof (cases "list_all blank_cell row")
    case True
    with Cons.prems(1) have "row_loop columns kws rows results = Some rs" by simp
    from Cons.IH[OF this Cons.prems(2,3)] show ?thesis .
  next
    case False
    with Cons.prems(1) obtain d where d: "field_loop columns row kws [] = Some d"
      by (auto split: option.splits)
    have dk: "entries_ok K d" using d entries_ok_Nil Cons.prems(3) by (rule field_loop_entries)
    from Cons.prems(1) False d
    have "row_loop columns kws rows (if 3 \<le> length d then results @ [d] else results) = Some rs"
      by simp
    moreover have "\<forall>e \<in> set (if 3 \<le> length d then results @ [d] else results). entries_ok K e"
      using Cons.prems(2) dk by auto
    ultimately show ?thesis using Cons.prems(3) by (rule Cons.IH)
  qed
qed

lemma extract_table_format_entries:
  assumes "extract_table_format df kws = Some rs"
  shows "\<forall>d \<in> set rs. entries_ok (fst ` set kws) d"
proof -
  from assms obtain h where
    r: "row_loop (cleaned_headers (df ! h)) kws (drop (h + 1) df) [] = Some rs"
    by (auto simp: extract_table_format_def Let_def split: if_splits option.splits)
  show ?thesis by (rule row_loop_entries[OF r]) simp_all
qed

lemma same_cell_value_clean: "same_cell_value cv kwset = Some v \<Longrightarrow> \<exists>x. v = clean_value x"
  by (auto simp: same_cell_value_def Let_def split: if_splits)

lemma right_value_clean: "right_value df i j kwset offsets = Some v \<Longrightarrow> \<exists>x. v = clean_value x"
  by (induction offsets) (auto simp: Let_def split: if_splits)

lemma kv_pattern_loop_entries:
  "entries_ok K result \<Longrightarrow> f \<in> K \<Longrightarrow>
   entries_ok K (kv_pattern_loop df kws kwset f i j cv ps result)"
proof (induction ps)
  case Nil
  then show ?case by simp
next
  case (Cons p ps)
  show ?case
  proof (cases "is_match cv p \<and> \<not> better_field_match kws f (cleaned cv) (cleaned p)")
    case False
    then have "kv_pattern_loop df kws kwset f i j cv (p # ps) result =
               kv_pattern_loop df kws kwset f i j cv ps result" by auto
    with Cons show ?thesis by simp
  next
    case True
    show ?thesis
    proof (cases "same_cell_value cv kwset")
      case (Some v)
      from same_cell_value_clean[OF Some] obtain x where "v = clean_value x" by blast
      with True Some Cons.prems show ?thesis
        by (simp del: right_value.simps add: entries_ok_update)
    next
      case None
      show ?thesis
      proof (cases "right_value df i j kwset [1, 2]")
        case rn: None
        have "kv_pattern_loop df kws kwset f i j cv (p # ps) result = result"
          unfolding kv_pattern_loop.simps using True None rn by simp
        with Cons.prems show ?thesis by simp
      next
        case (Some v)
        from right_value_clean[OF Some] obtain x where x: "v = clean_value x" by blast
        have "kv_pattern_loop df kws kwset f i j cv (p # ps) result = AList.update f v result"
          unfolding kv_pattern_loop.simps using True None Some by simp
        with Cons.prems x show ?thesis by (simp add: entries_ok_update)
      qed
    qed
  qed
qed

lemma kv_col_loop_entries:
  "entries_ok K result \<Longrightarrow> f \<in> K \<Longrightarrow>
   entries_ok K (kv_col_loop df kws kwset f ps i js result)"
  by (induction js arbitrary: result) (auto simp: Let_def kv_pattern_loop_entries)

lemma kv_row_loop_entries:
  "entries_ok K result \<Longrightarrow> f \<in> K \<Longrightarrow>
   entries_ok K (kv_row_loop df kws kwset f ps is result)"
  by (induction "is" arbitrary: result) (auto simp: Let_def kv_col_loop_entries)

lemma kv_field_loop_entries:
  "entries_ok K result \<Longrightarrow> fst ` set rest \<subseteq> K \<Longrightarrow>
   entries_ok K (kv_field_loop df kws kwset rest result)"
proof (induction rest arbitrary: result)
  case Nil
  then show ?case by simp
next
  case (Cons fp rest)
  obtain f ps where fp: "fp = (f, ps)" by (cases fp)
  from Cons.prems(2) fp have f: "f \<in> K" and sub: "fst ` set rest \<subseteq> K" by auto
  have "entries_ok K (kv_row_loop df kws kwset f ps [0 ..< length df] result)"
    using Cons.prems(1) f by (rule kv_row_loop_entries)
  from Cons.IH[OF this sub] fp show ?case by simp
qed

lemma extract_keyvalue_format_entries:
  "extract_keyvalue_format df kws = Some r \<Longrightarrow> entries_ok (fst ` set kws) r"
  using kv_field_loop_entries[of "fst ` set kws" "[]" kws df kws "all_keywords kws"]
  by (auto simp: extract_keyvalue_format_def Let_def entries_ok_Nil split: if_splits)

subsection \<open>The orchestrator\<close>

lemma smart_cases:
  "extract_fund_data_smart df =
     (if filter is_valid_result (records_of (extract_table_format df fund_keywords)) \<noteq> []
      then Some (filter is_valid_result (records_of (extract_table_format df fund_keywords)))
      else (case extract_keyvalue_format df fund_keywords of
              None \<Rightarrow> None
            | Some r \<Rightarrow> if is_valid_result r then Some [r] else None))"
  by (simp add: extract_fund_data_smart_def records_of_def Let_def split: option.splits)

lemma smart_records:
  assumes "extract_fund_data_smart df = Some rs" and "r \<in> set rs"
  shows "is_valid_result r \<and> entries_ok (fst ` set fund_keywords) r"
proof (cases "filter is_valid_result (records_of (extract_table_format df fund_keywords)) = []")
  case False
  with assms(1) have rs: "rs = filter is_valid_result (records_of (extract_table_format df fund_keywords))"
    by (simp add: smart_cases)
  with False obtain ts where ts: "extract_table_format df fund_keywords = Some ts"
    by (cases "extract_table_format df fund_keywords") (auto simp: records_of_def)
  from rs ts assms(2) have "r \<in> set ts" "is_valid_result r" by (auto simp: records_of_def)
  with extract_table_format_entries[OF ts] show ?thesis by blast
next
  case True
  with assms(1) obtain k where k: "extract_keyvalue_format df fund_keywords = Some k"
    "is_valid_result k" "rs = [k]"
    by (auto simp: smart_cases split: option.splits if_splits)
  with assms(2) extract_keyvalue_format_entries[OF k(1)] show ?thesis by simp
qed

lemma smart_never_empty: "extract_fund_data_smart df \<noteq> Some []"
  by (auto simp: smart_cases split: option.splits)

lemma valid_entry:
  assumes "is_valid_result r" and "entries_ok K r"
  shows "\<exists>code nav. map_of r product_code = Some code \<and> code \<noteq> [] \<and> \<not> blank code \<and>
           map_of r unit_nav = Some nav \<and> nav \<noteq> [] \<and> \<not> blank nav"
proof -
  from assms(1) obtain code nav where
    c: "map_of r product_code = Some code" "code \<noteq> []" and
    n: "map_of r unit_nav = Some nav" "nav \<noteq> []"
    by (auto simp: is_valid_result_def split: option.splits)
  from c(1) have "(product_code, code) \<in> set r" by (rule map_of_SomeD)
  with assms(2) obtain x where "code = clean_value x" unfolding entries_ok_def by blast
  with c(2) have cb: "\<not> blank code" using clean_value_not_blank by blast
  from n(1) have "(unit_nav, nav) \<in> set r" by (rule map_of_SomeD)
  with assms(2) obtain y where "nav = clean_value y" unfolding entries_ok_def by blast
  with n(2) have nb: "\<not> blank nav" using clean_value_not_blank by blast
  from c n cb nb show ?thesis by blast
qed

lemma fund_keywords_keys:
  "map fst fund_keywords = [product_name, product_code, unit_nav, accumulated_nav, nav_date]"
  by (simp add: fund_keywords_def)

lemma ancillary_not_in_catalog:
  "client_name \<notin> fst ` set fund_keywords" "participating_shares \<notin> fst ` set fund_keywords"
  "accrual_frequency \<notin> fst ` set fund_keywords" "virtual_fee \<notin> fst ` set fund_keywords"
  "withdrawal_nav \<notin> fst ` set fund_keywords" "post_accrual_nav \<notin> fst ` set fund_keywords"
proof -
  have k: "fst ` set fund_keywords = {product_name, product_code, unit_nav, accumulated_nav, nav_date}"
    using fund_keywords_keys by (metis list.set(1) list.set(2) set_map)
  show "client_name \<notin> fst ` set fund_keywords" unfolding k
    by (simp add: client_name_def product_name_def product_code_def unit_nav_def
        accumulated_nav_def nav_date_def)
  show "participating_shares \<notin> fst ` set fund_keywords" unfolding k
    by (simp add: participating_shares_def product_name_def product_code_def unit_nav_def
        accumulated_nav_def nav_date_def)
  show "accrual_frequency \<notin> fst ` set fund_keywords" unfolding k
    by (simp add: accrual_frequency_def product_name_def product_code_def unit_nav_def
        accumulated_nav_def nav_date_def)
  show "virtual_fee \<notin> fst ` set fund_keywords" unfolding k
    by (simp add: virtual_fee_def product_name_def product_code_def unit_nav_def
        accumulated_nav_def nav_date_def)
  show "withdrawal_nav \<notin> fst ` set fund_keywords" unfolding k
    by (simp add: withdrawal_nav_def product_name_def product_code_def unit_nav_def
        accumulated_nav_def nav_date_def)
  show "post_accrual_nav \<notin> fst ` set fund_keywords" unfolding k
    by (simp add: post_accrual_nav_def product_name_def product_code_def unit_nav_def
        accumulated_nav_def nav_date_def)
qed

lemma absent_key:
  "entries_ok K r \<Longrightarrow> k \<notin> K \<Longrightarrow> map_of r k = None"
  unfolding entries_ok_def map_of_eq_None_iff by force

lemma absent_float: "map_of r k = None \<Longrightarrow> float_if_present r k = PNone"
  by (simp add: float_if_present_def)

lemma normalize_ancillary:
  assumes "entries_ok (fst ` set fund_keywords) r"
  shows "n_client_name (normalize r) = None \<and> n_participating_shares (normalize r) = PNone \<and>
         n_accrual_frequency (normalize r) = None \<and> n_virtual_fee (normalize r) = PNone \<and>
         n_withdrawal_nav (normalize r) = PNone \<and> n_post_accrual_nav (normalize r) = PNone"
  using absent_key[OF assms ancillary_not_in_catalog(1)]
    absent_float[OF absent_key[OF assms ancillary_not_in_catalog(2)]]
    absent_key[OF assms ancillary_not_in_catalog(3)]
    absent_float[OF absent_key[OF assms ancillary_not_in_catalog(4)]]
    absent_float[OF absent_key[OF assms ancillary_not_in_catalog(5)]]
    absent_float[OF absent_key[OF assms ancillary_not_in_catalog(6)]]
  by (simp add: normalize_def)

lemma normalized_records:
  assumes "extract_and_normalize df = Some ns" and "n \<in> set ns"
  shows "\<exists>rs r. extract_fund_data_smart df = Some rs \<and> r \<in> set rs \<and> n = normalize r"
  using assms by (auto simp: extract_and_normalize_def split: option.splits if_splits)

lemma partial_example:
  "extract_fund_data_smart partial_df =
     Some [[(product_name, asc ''Test Fund''), (product_code, asc ''ABC123''),
            (unit_nav, asc ''1.5000''), (nav_date, asc ''20250121'')]]"
  by code_simp

section \<open>The claims about validation and orchestration\<close>

text \<open>
  C2: on both paths, every record that \<^verbatim>\<open>extract_fund_data_smart\<close> returns passes
  \<^verbatim>\<open>is_valid_result\<close> and has a product code and a unit net value that are not
  blank; so has every normalized record of \<^verbatim>\<open>extract_and_normalize\<close>, whose unit
  value is a number or a non-blank text. A candidate record that lacks either field is
  therefore in no output, whatever else it holds.
\<close>

theorem records_have_code_and_value:
  "(extract_fund_data_smart df = Some rs \<and> r \<in> set rs \<longrightarrow>
      is_valid_result r \<and>
      (\<exists>code nav. map_of r product_code = Some code \<and> code \<noteq> [] \<and> \<not> blank code \<and>
         map_of r unit_nav = Some nav \<and> nav \<noteq> [] \<and> \<not> blank nav)) \<and>
   (extract_and_normalize df = Some ns \<and> n \<in> set ns \<longrightarrow>
      (\<exists>code nav. n_product_code n = Some code \<and> \<not> blank code \<and> \<not> blank nav \<and>
         (n_unit_nav n = PStr nav \<or> (\<exists>x. n_unit_nav n = PFloat x))))"
proof -
  have 1: "extract_fund_data_smart df = Some rs \<and> r \<in> set rs \<longrightarrow>
      is_valid_result r \<and>
      (\<exists>code nav. map_of r product_code = Some code \<and> code \<noteq> [] \<and> \<not> blank code \<and>
         map_of r unit_nav = Some nav \<and> nav \<noteq> [] \<and> \<not> blank nav)"
    using smart_records valid_entry by blast
  have 2: "extract_and_normalize df = Some ns \<and> n \<in> set ns \<longrightarrow>
      (\<exists>code nav. n_product_code n = Some code \<and> \<not> blank code \<and> \<not> blank nav \<and>
         (n_unit_nav n = PStr nav \<or> (\<exists>x. n_unit_nav n = PFloat x)))"
  proof
    assume a: "extract_and_normalize df = Some ns \<and> n \<in> set ns"
    then obtain rs' r' where
      r: "extract_fund_data_smart df = Some rs'" "r' \<in> set rs'" "n = normalize r'"
      using normalized_records by blast
    from smart_records[OF r(1,2)] valid_entry obtain code nav where
      cn: "map_of r' product_code = Some code" "\<not> blank code"
          "map_of r' unit_nav = Some nav" "\<not> blank nav"
      by blast
    have "n_product_code n = Some code" using r(3) cn(1) by (simp add: normalize_def)
    moreover have "n_unit_nav n = PStr nav \<or> (\<exists>x. n_unit_nav n = PFloat x)"
      using r(3) cn(3) by (auto simp: normalize_def convert_to_float_def split: option.splits)
    ultimately show "\<exists>code nav. n_product_code n = Some code \<and> \<not> blank code \<and> \<not> blank nav \<and>
         (n_unit_nav n = PStr nav \<or> (\<exists>x. n_unit_nav n = PFloat x))"
      using cn(2,4) by blast
  qed
  from 1 2 show ?thesis by (rule conjI)
qed

text \<open>
  In \<open>partial_df\<close> the second data row has a name, a unit value and a date, and no
  product code: only the first row's record is returned.
\<close>

theorem records_have_code_and_value_witness:
  "extract_fund_data_smart partial_df =
     Some [[(product_name, asc ''Test Fund''), (product_code, asc ''ABC123''),
            (unit_nav, asc ''1.5000''), (nav_date, asc ''20250121'')]] \<and>
   is_valid_result [(product_name, asc ''Test Fund''), (product_code, asc ''ABC123''),
                    (unit_nav, asc ''1.5000''), (nav_date, asc ''20250121'')] \<and>
   \<not> is_valid_result [(product_name, asc ''Test Fund 2''), (unit_nav, asc ''2.0000''),
                      (nav_date, asc ''20250122'')]"
proof -
  let ?r = "[(product_name, asc ''Test Fund''), (product_code, asc ''ABC123''),
            (unit_nav, asc ''1.5000''), (nav_date, asc ''20250121'')]"
  have e: "extract_fund_data_smart partial_df = Some [?r]" by (rule partial_example)
  have m: "?r \<in> set [?r]" by simp
  from records_have_code_and_value[of partial_df "[?r]" ?r] e m
  have v: "is_valid_result ?r" by blast
  have n: "\<not> is_valid_result [(product_name, asc ''Test Fund 2''), (unit_nav, asc ''2.0000''),
                      (nav_date, asc ''20250122'')]" by code_simp
  from e v n show ?thesis by (intro conjI)
qed

text \<open>
  C3, as stated, fails in one point: when neither path yields a valid record,
  \<^verbatim>\<open>extract_fund_data_smart\<close> does not return the empty sequence; it returns
  \<^verbatim>\<open>None\<close>, as its docstring says. For the one-cell caption grid \<open>title_df\<close>
  neither path yields a record.
\<close>

theorem orchestration_empty_counterexample:
  "extract_table_format title_df fund_keywords = None \<and>
   extract_keyvalue_format title_df fund_keywords = None \<and>
   extract_fund_data_smart title_df \<noteq> Some [] \<and>
   extract_fund_data_smart title_df = None"
  using title_no_table title_no_keyvalue title_outcome by simp

text \<open>
  C3, amended: \<^verbatim>\<open>extract_fund_data_smart\<close> first runs the table path. If that yields
  at least one valid record, exactly the valid records of the table path are returned,
  whatever the key/value path would yield. Otherwise (the table path returns nothing, or
  none of its records is valid) the result is the single record of the key/value path,
  as a one-element list, if there is one and it is valid, and \<^verbatim>\<open>None\<close> if not. The
  function never returns an empty list, and it is total: inside the two paths every
  exception is caught and becomes \<^verbatim>\<open>None\<close>.
\<close>

theorem orchestration_amended:
  "(extract_table_format df fund_keywords = Some results \<and>
      filter is_valid_result results \<noteq> []
    \<longrightarrow> extract_fund_data_smart df = Some (filter is_valid_result results)) \<and>
   (extract_table_format df fund_keywords = None \<or>
      (\<exists>results. extract_table_format df fund_keywords = Some results \<and>
         filter is_valid_result results = [])
    \<longrightarrow> extract_fund_data_smart df =
        (case extract_keyvalue_format df fund_keywords of
           None \<Rightarrow> None
         | Some r \<Rightarrow> if is_valid_result r then Some [r] else None)) \<and>
   extract_fund_data_smart df \<noteq> Some []"
proof -
  have 1: "extract_table_format df fund_keywords = Some results \<and>
      filter is_valid_result results \<noteq> []
    \<longrightarrow> extract_fund_data_smart df = Some (filter is_valid_result results)"
    by (simp add: smart_cases records_of_def)
  have 2: "extract_table_format df fund_keywords = None \<or>
      (\<exists>results. extract_table_format df fund_keywords = Some results \<and>
         filter is_valid_result results = [])
    \<longrightarrow> extract_fund_data_smart df =
        (case extract_keyvalue_format df fund_keywords of
           None \<Rightarrow> None
         | Some r \<Rightarrow> if is_valid_result r then Some [r] else None)"
    by (auto simp: smart_cases records_of_def)
  from 1 2 smart_never_empty show ?thesis by (intro conjI)
qed

text \<open>
  The three cases at concrete grids: the example table (table path), the sheet
  \<open>below_df\<close> (the table path returns nothing and the key/value record has no product
  code, so the result is \<^verbatim>\<open>None\<close>) and a key/value sheet with the code to the right
  of its label.
\<close>

theorem orchestration_amended_witness:
  "extract_table_format table_df fund_keywords =
     Some [[(product_name, asc ''Test Fund''), (product_code, asc ''ABC123''),
            (unit_nav, asc ''1.5000''), (accumulated_nav, asc ''1.5000''),
            (nav_date, asc ''20250121'')],
           [(product_name, asc ''Test Fund 2''), (product_code, asc ''ABC124''),
            (unit_nav, asc ''2.0000''), (accumulated_nav, asc ''2.0000''),
            (nav_date, asc ''20250122'')]] \<and>
   extract_fund_data_smart table_df =
     Some (filter is_valid_result
       [[(product_name, asc ''Test Fund''), (product_code, asc ''ABC123''),
         (unit_nav, asc ''1.5000''), (accumulated_nav, asc ''1.5000''),
         (nav_date, asc ''20250121'')],
        [(product_name, asc ''Test Fund 2''), (product_code, asc ''ABC124''),
         (unit_nav, asc ''2.0000''), (accumulated_nav, asc ''2.0000''),
         (nav_date, asc ''20250122'')]]) \<and>
   extract_table_format below_df fund_keywords = None \<and>
   extract_keyvalue_format below_df fund_keywords =
     Some [(product_name, asc ''Fund A''), (unit_nav, asc ''1.5''), (nav_date, asc ''20240130'')] \<and>
   extract_fund_data_smart below_df = None \<and>
   extract_table_format keyvalue_df fund_keywords = None \<and>
   extract_fund_data_smart keyvalue_df =
     Some [[(product_name, asc ''Fund A''), (product_code, asc ''T05851''), (unit_nav, asc ''1.5'')]]"
proof -
  let ?ts = "[[(product_name, asc ''Test Fund''), (product_code, asc ''ABC123''),
            (unit_nav, asc ''1.5000''), (accumulated_nav, asc ''1.5000''),
            (nav_date, asc ''20250121'')],
           [(product_name, asc ''Test Fund 2''), (product_code, asc ''ABC124''),
            (unit_nav, asc ''2.0000''), (accumulated_nav, asc ''2.0000''),
            (nav_date, asc ''20250122'')]]"
  have t: "extract_table_format table_df fund_keywords = Some ?ts" by code_simp
  have tv: "filter is_valid_result ?ts \<noteq> []" by code_simp
  from orchestration_amended[of table_df ?ts] t tv
  have 1: "extract_fund_data_smart table_df = Some (filter is_valid_result ?ts)" by blast
  have b: "extract_table_format below_df fund_keywords = None" by code_simp
  have bk: "extract_keyvalue_format below_df fund_keywords =
     Some [(product_name, asc ''Fund A''), (unit_nav, asc ''1.5''), (nav_date, asc ''20240130'')]"
    by code_simp
  have bv: "\<not> is_valid_result
     [(product_name, asc ''Fund A''), (unit_nav, asc ''1.5''), (nav_date, asc ''20240130'')]"
    by code_simp
  from orchestration_amended[of below_df] b
  have "extract_fund_data_smart below_df =
        (case extract_keyvalue_format below_df fund_keywords of
           None \<Rightarrow> None
         | Some r \<Rightarrow> if is_valid_result r then Some [r] else None)" by blast
  with bk bv have 2: "extract_fund_data_smart below_df = None" by simp
  have k: "extract_table_format keyvalue_df fund_keywords = None" by code_simp
  have kk: "extract_keyvalue_format keyvalue_df fund_keywords =
     Some [(product_name, asc ''Fund A''), (product_code, asc ''T05851''), (unit_nav, asc ''1.5'')]"
    by code_simp
  have kv: "is_valid_result
     [(product_name, asc ''Fund A''), (product_code, asc ''T05851''), (unit_nav, asc ''1.5'')]"
    by code_simp
  from orchestration_amended[of keyvalue_df] k
  have "extract_fund_data_smart keyvalue_df =
        (case extract_keyvalue_format keyvalue_df fund_keywords of
           None \<Rightarrow> None
         | Some r \<Rightarrow> if is_valid_result r then Some [r] else None)" by blast
  with kk kv have 3: "extract_fund_data_smart keyvalue_df =
     Some [[(product_name, asc ''Fund A''), (product_code, asc ''T05851''), (unit_nav, asc ''1.5'')]]"
    by simp
  from t 1 b bk 2 k 3 show ?thesis by (intro conjI)
qed

text \<open>
  C10: the catalog has the five core fields as its only keys, so the records of both
  paths have no other keys, and in every record that \<^verbatim>\<open>extract_and_normalize\<close>
  returns the six ancillary fields (client name, participating shares, accrual
  frequency, virtual performance fee, withdrawal net value, virtual net value after
  accrual) are \<^verbatim>\<open>None\<close>.
\<close>

theorem ancillary_fields_none:
  "map fst fund_keywords = [product_name, product_code, unit_nav, accumulated_nav, nav_date] \<and>
   (extract_and_normalize df = Some ns \<and> n \<in> set ns \<longrightarrow>
      n_client_name n = None \<and> n_participating_shares n = PNone \<and>
      n_accrual_frequency n = None \<and> n_virtual_fee n = PNone \<and>
      n_withdrawal_nav n = PNone \<and> n_post_accrual_nav n = PNone)"
proof -
  have "extract_and_normalize df = Some ns \<and> n \<in> set ns \<longrightarrow>
      n_client_name n = None \<and> n_participating_shares n = PNone \<and>
      n_accrual_frequency n = None \<and> n_virtual_fee n = PNone \<and>
      n_withdrawal_nav n = PNone \<and> n_post_accrual_nav n = PNone"
  proof
    assume "extract_and_normalize df = Some ns \<and> n \<in> set ns"
    then obtain rs r where
      r: "extract_fund_data_smart df = Some rs" "r \<in> set rs" "n = normalize r"
      using normalized_records by blast
    from smart_records[OF r(1,2)] have "entries_ok (fst ` set fund_keywords) r" by simp
    from normalize_ancillary[OF this] r(3)
    show "n_client_name n = None \<and> n_participating_shares n = PNone \<and>
      n_accrual_frequency n = None \<and> n_virtual_fee n = PNone \<and>
      n_withdrawal_nav n = PNone \<and> n_post_accrual_nav n = PNone" by simp
  qed
  with fund_keywords_keys show ?thesis by (rule conjI)
qed

text \<open>
  A sheet that has a client name beside the core fields: the normalized record has no
  client name.
\<close>

theorem ancillary_fields_none_witness:
  "extract_and_normalize client_df =
     Some [\<lparr>n_product_name = Some (asc ''Fund A''), n_product_code = Some (asc ''T05851''),
            n_client_name = None, n_participating_shares = PNone,
            n_nav_date = None, n_unit_nav = PFloat (Dec False 15 (- 1)),
            n_accumulated_nav = PNone, n_accrual_frequency = None,
            n_virtual_fee = PNone, n_withdrawal_nav = PNone, n_post_accrual_nav = PNone\<rparr>] \<and>
   n_client_name (hd (records_of (extract_and_normalize client_df))) = None \<and>
   n_participating_shares (hd (records_of (extract_and_normalize client_df))) = PNone"
proof -
  let ?n = "\<lparr>n_product_name = Some (asc ''Fund A''), n_product_code = Some (asc ''T05851''),
            n_client_name = None, n_participating_shares = PNone,
            n_nav_date = None, n_unit_nav = PFloat (Dec False 15 (- 1)),
            n_accumulated_nav = PNone, n_accrual_frequency = None,
            n_virtual_fee = PNone, n_withdrawal_nav = PNone, n_post_accrual_nav = PNone\<rparr>"
  have e: "extract_and_normalize client_df = Some [?n]" by code_simp
  then have h: "hd (records_of (extract_and_normalize client_df)) = ?n"
    by (simp add: records_of_def)
  have m: "?n \<in> set [?n]" by simp
  from ancillary_fields_none[of client_df "[?n]" ?n] e m
  have "n_client_name ?n = None \<and> n_participating_shares ?n = PNone" by blast
  with e h show ?thesis by simp
qed

end
